theory Spec2Isabelle
  imports Main "HOL-Library.Sublist"
begin

section \<open>Go values: panics, errors, strings, maps\<close>

text \<open>
  A Go call either panics or returns its (tuple of) results. The functions of
  package \<open>langserver\<close> modelled here return tuples whose last component is an
  \<open>error\<close> (\<open>None\<close> is Go's \<open>nil\<close>); a pointer is an \<open>option\<close> as well.
\<close>

datatype 'a go = Panic | Ret 'a

text \<open>\<open>*build.MultiplePackageError\<close> (go/build): \<open>Files[i]\<close> declares package \<open>Packages[i]\<close>.\<close>

record MultiplePackageError =
  Dir_m :: string
  Packages :: "string list"
  Files :: "string list"

text \<open>
  The errors the file creates with \<open>fmt.Errorf\<close>, one constructor per format string,
  holding the arguments of the format; \<open>ErrMultiplePackage\<close> is a
  \<open>*build.MultiplePackageError\<close> (the only error the code inspects by type) and
  \<open>ErrOther\<close> any other error of a collaborator.
\<close>

datatype error =
    ErrNoFile string string
      \<comment> \<open>"package %q in %s has no file %q": PkgPath, filename (the directory is filepath.Dir filename)\<close>
  | ErrOutOfWorkspace string
      \<comment> \<open>"typechecking of out-of-workspace URI (%q) is not yet supported": fileURI\<close>
  | ErrInvalidPosition string int int string
      \<comment> \<open>"invalid position: %s:%d:%d (%s)": filename, line, character, why\<close>
  | ErrInvalidLocation string int
      \<comment> \<open>"invalid location: %s:#%d": filename, offset\<close>
  | ErrMultiplePackage MultiplePackageError
  | ErrOther string

text \<open>\<open>strings.HasSuffix\<close> and \<open>strings.TrimSuffix\<close> of the Go standard library.\<close>

definition HasSuffix :: "string \<Rightarrow> string \<Rightarrow> bool" where
  "HasSuffix s suffix_s =
     (length s \<ge> length suffix_s \<and> drop (length s - length suffix_s) s = suffix_s)"

definition TrimSuffix :: "string \<Rightarrow> string \<Rightarrow> string" where
  "TrimSuffix s suffix_s =
     (if HasSuffix s suffix_s then take (length s - length suffix_s) s else s)"

text \<open>
  A Go \<open>map[string]string\<close>; reading a key that is absent gives the zero value, the
  empty string.
\<close>

type_synonym gomap = "string \<rightharpoonup> string"

definition lookup :: "gomap \<Rightarrow> string \<Rightarrow> string" where
  "lookup mp k = (case mp k of None \<Rightarrow> [] | Some v \<Rightarrow> v)"

section \<open>Positions in a file set\<close>

text \<open>
  \<open>token.Pos\<close> is an int and \<open>token.NoPos\<close> is 0. A \<open>*token.File\<close> of a file set has
  a name, a base and a size; \<open>File.Pos\<close> of go/token, as it was when this code was
  written, panics on an offset beyond the size (\<open>"illegal file offset"\<close>) and else
  returns base + offset.
\<close>

definition NoPos :: int where
  "NoPos = 0"

record File =
  File_Name :: string
  File_base :: int
  File_size :: int

definition File_Pos :: "File \<Rightarrow> int \<Rightarrow> int go" where
  "File_Pos f offset = (if offset > File_size f then Panic else Ret (File_base f + offset))"

text \<open>
  \<open>posForFileOffset\<close> (lines 27-40): \<open>fset.Iterate\<close> visits the files in order and the
  callback stops it at the first file whose name is path-equal to \<open>filename\<close>.
  \<open>util.PathEqual\<close> is not in the sources and is a parameter.
\<close>

fun Iterate_find :: "(string \<Rightarrow> string \<Rightarrow> bool) \<Rightarrow> File list \<Rightarrow> string \<Rightarrow> File option" where
  "Iterate_find PathEqual [] filename = None"
| "Iterate_find PathEqual (ff # rest) filename =
     (if PathEqual (File_Name ff) filename then Some ff
      else Iterate_find PathEqual rest filename)"

definition posForFileOffset ::
  "(string \<Rightarrow> string \<Rightarrow> bool) \<Rightarrow> File list \<Rightarrow> string \<Rightarrow> int \<Rightarrow> int go" where
  "posForFileOffset PathEqual fset filename offset =
     (case Iterate_find PathEqual fset filename of
        None \<Rightarrow> Ret NoPos
      | Some f \<Rightarrow> File_Pos f offset)"

section \<open>Disambiguation in a directory with several packages\<close>

text \<open>\<open>*packages.Package\<close>, with the fields the file reads or writes.\<close>

record Package =
  Name :: string
  PkgPath :: string
  GoFiles :: "string list"
  Fset :: "File list"

text \<open>
  Lines 52-55: \<open>for i, f := range m.Files { fileToPkgName[f] = m.Packages[i] }\<close>.
  Indexing \<open>m.Packages\<close> out of range panics; a file listed twice keeps its last entry.
\<close>

fun fileToPkgName_loop :: "string list \<Rightarrow> string list \<Rightarrow> nat \<Rightarrow> gomap \<Rightarrow> gomap go" where
  "fileToPkgName_loop [] pkgs i mp = Ret mp"
| "fileToPkgName_loop (f # fs) pkgs i mp =
     (if i < length pkgs then fileToPkgName_loop fs pkgs (Suc i) (mp(f \<mapsto> pkgs ! i))
      else Panic)"

definition fileToPkgName :: "MultiplePackageError \<Rightarrow> gomap go" where
  "fileToPkgName m = fileToPkgName_loop (Files m) (Packages m) 0 Map.empty"

text \<open>
  Lines 62-70, the closure \<open>filterToFilesInPackage\<close> over \<open>fileToPkgName\<close>:
  \<open>keep\<close> starts as the nil slice and each kept file is appended to it.
\<close>

fun filterToFilesInPackage_loop :: "gomap \<Rightarrow> string list \<Rightarrow> string \<Rightarrow> string list \<Rightarrow> string list" where
  "filterToFilesInPackage_loop mp [] pkgName keep = keep"
| "filterToFilesInPackage_loop mp (f # files) pkgName keep =
     (if lookup mp f = pkgName
      then filterToFilesInPackage_loop mp files pkgName (keep @ [f])
      else filterToFilesInPackage_loop mp files pkgName keep)"

definition filterToFilesInPackage :: "gomap \<Rightarrow> string list \<Rightarrow> string \<Rightarrow> string list" where
  "filterToFilesInPackage mp files pkgName = filterToFilesInPackage_loop mp files pkgName []"

text \<open>
  \<open>buildPackageForNamedFileInMultiPackageDir\<close> (lines 47-91) on values: the result is
  the copy of \<open>*bpkg\<close> with \<open>Name\<close> and \<open>GoFiles\<close> rewritten. \<open>copy := *bpkg\<close>
  panics on a nil pointer.
\<close>

definition buildPackageForNamedFileInMultiPackageDir ::
  "Package option \<Rightarrow> MultiplePackageError \<Rightarrow> string \<Rightarrow> (Package option \<times> error option) go" where
  "buildPackageForNamedFileInMultiPackageDir bpkg m filename =
     (case bpkg of
        None \<Rightarrow> Panic
      | Some copy \<Rightarrow>
          (case fileToPkgName m of
             Panic \<Rightarrow> Panic
           | Ret mp \<Rightarrow>
               (let pkgName = lookup mp filename in
                if pkgName = [] then Ret (None, Some (ErrNoFile (PkgPath copy) filename))
                else
                  (let nonXTestPkgName =
                         (if HasSuffix pkgName ''_test'' then TrimSuffix pkgName ''_test''
                          else pkgName)
                   in Ret (Some (copy\<lparr>Name := pkgName,
                                      GoFiles := filterToFilesInPackage mp (GoFiles copy) nonXTestPkgName\<rparr>),
                           None)))))"

text \<open>
  The mapping the loop builds, read off the two lists: the entry of a file is the
  package at the file's last position in \<open>Files\<close>.
\<close>

definition declared :: "MultiplePackageError \<Rightarrow> gomap" where
  "declared m = map_of (rev (zip (Files m) (Packages m)))"

section \<open>Tracing\<close>

text \<open>
  The opentracing calls of the file, on a tracer that logs what it is asked: a span is
  started under a parent with an operation name and tags, and finished. A
  \<open>context.Context\<close> carries the active span, or none; \<open>opentracing.SpanFromContext\<close>
  then returns nil, and \<open>parentSpan.Tracer()\<close> on it panics. The collaborators that
  receive the context (package loading, file reading, the loader) are parameters of
  the model and do not write to this log.
\<close>

datatype span_event =
    Started nat string "(string \<times> string) list" nat
      \<comment> \<open>span, operation name, tags, parent span\<close>
  | Finished nat

type_synonym tracer = "span_event list"

record Context =
  ctx_span :: "nat option"

definition SpanFromContext :: "Context \<Rightarrow> nat option" where
  "SpanFromContext ctx = ctx_span ctx"

definition StartSpan :: "tracer \<Rightarrow> string \<Rightarrow> (string \<times> string) list \<Rightarrow> nat \<Rightarrow> nat \<times> tracer" where
  "StartSpan tr operationName tags parent =
     (length tr, tr @ [Started (length tr) operationName tags parent])"

definition Finish :: "tracer \<Rightarrow> nat \<Rightarrow> tracer" where
  "Finish tr span = tr @ [Finished span]"

section \<open>Loading the package of a position\<close>

record Position =
  Line :: int
  Character :: int

text \<open>
  What \<open>loadPackage\<close> and \<open>load\<close> call and the sources do not hold: \<open>util.IsURI\<close>,
  \<open>util.PathEqual\<close>, \<open>h.FilePath\<close>, \<open>bctx.IsDir\<close>, \<open>path.Dir\<close>, \<open>path.Base\<close>,
  \<open>h.packageCache.Load\<close> and \<open>h.readFile\<close>.
\<close>

record Collaborators =
  IsURI :: "string \<Rightarrow> bool"
  PathEqual :: "string \<Rightarrow> string \<Rightarrow> bool"
  FilePath :: "string \<Rightarrow> string"
  IsDir :: "string \<Rightarrow> bool"
  path_Dir :: "string \<Rightarrow> string"
  path_Base :: "string \<Rightarrow> string"
  packageCache_Load :: "string \<Rightarrow> Package option \<times> error option"
  readFile :: "string \<Rightarrow> string \<times> error option"

text \<open>\<open>load\<close> (lines 306-313).\<close>

definition load :: "Collaborators \<Rightarrow> string \<Rightarrow> Package option \<times> error option" where
  "load h filename =
     (let pkgDir = (if \<not> IsDir h filename then path_Dir h filename else filename)
      in packageCache_Load h pkgDir)"

text \<open>
  Lines 280-294 of \<open>loadPackage\<close>: the contents are read, the position becomes an
  offset and the offset a \<open>token.Pos\<close> of the package's file set. \<open>offsetForPosition\<close>
  is not in the sources and is the parameter \<open>ofp\<close>; \<open>pkg.Fset\<close> on a nil package
  panics.
\<close>

definition loadPackage_position ::
  "Collaborators \<Rightarrow> (string \<Rightarrow> Position \<Rightarrow> int \<times> bool \<times> string) \<Rightarrow> string \<Rightarrow> string \<Rightarrow> Position
     \<Rightarrow> Package option \<Rightarrow> (Package option \<times> int \<times> error option) go" where
  "loadPackage_position h ofp fileURI filename position pkg =
     (case readFile h fileURI of
        (contents, Some e) \<Rightarrow> Ret (None, NoPos, Some e)
      | (contents, None) \<Rightarrow>
          (case ofp contents position of
             (offset, valid, why) \<Rightarrow>
               if \<not> valid
               then Ret (None, NoPos,
                      Some (ErrInvalidPosition filename (Line position) (Character position) why))
               else
                 (case pkg of
                    None \<Rightarrow> Panic
                  | Some p \<Rightarrow>
                      (case posForFileOffset (PathEqual h) (Fset p) filename offset of
                         Panic \<Rightarrow> Panic
                       | Ret start \<Rightarrow>
                           if start = NoPos
                           then Ret (None, start, Some (ErrInvalidLocation filename offset))
                           else Ret (pkg, start, None)))))"

text \<open>
  Lines 252-260: the load of the package and, on a \<open>*build.MultiplePackageError\<close>,
  the disambiguation on \<open>path.Base(filename)\<close>. The result is \<open>pkg, err\<close> as they
  stand after line 260 or at the \<open>return nil, start, err\<close> of lines 256 and 259.
\<close>

definition loadPackage_pkg :: "Collaborators \<Rightarrow> string \<Rightarrow> (Package option \<times> error option) go" where
  "loadPackage_pkg h filename =
     (case load h filename of
        (pkg, Some (ErrMultiplePackage mpErr)) \<Rightarrow>
          buildPackageForNamedFileInMultiPackageDir pkg mpErr (path_Base h filename)
      | (pkg, err) \<Rightarrow> Ret (pkg, err))"

text \<open>Lines 244-294, the body after the deferred \<open>span.Finish()\<close>.\<close>

definition loadPackage_body ::
  "Collaborators \<Rightarrow> (string \<Rightarrow> Position \<Rightarrow> int \<times> bool \<times> string) \<Rightarrow> string \<Rightarrow> Position
     \<Rightarrow> (Package option \<times> int \<times> error option) go" where
  "loadPackage_body h ofp fileURI position =
     (if \<not> IsURI h fileURI then Ret (None, NoPos, Some (ErrOutOfWorkspace fileURI))
      else
        (let filename = FilePath h fileURI in
         case loadPackage_pkg h filename of
           Panic \<Rightarrow> Panic
         | Ret (pkg, Some e) \<Rightarrow> Ret (None, NoPos, Some e)
         | Ret (pkg, None) \<Rightarrow> loadPackage_position h ofp fileURI filename position pkg))"

text \<open>
  \<open>loadPackage\<close> (lines 235-295): the span is started first and, being deferred, is
  finished however the body ends.
\<close>

definition loadPackage ::
  "Collaborators \<Rightarrow> (string \<Rightarrow> Position \<Rightarrow> int \<times> bool \<times> string) \<Rightarrow> Context \<Rightarrow> string \<Rightarrow> Position
     \<Rightarrow> tracer \<Rightarrow> (Package option \<times> int \<times> error option) go \<times> tracer" where
  "loadPackage h ofp ctx fileURI position tr =
     (case SpanFromContext ctx of
        None \<Rightarrow> (Panic, tr)
      | Some parentSpan \<Rightarrow>
          (case StartSpan tr ''langserver-go: load program'' [(''fileURI'', fileURI)] parentSpan of
             (span, tr1) \<Rightarrow> (loadPackage_body h ofp fileURI position, Finish tr1 span)))"

text \<open>
  Modelled from the spec: the line table of \<open>offsetForPosition\<close>, which the
  sources do not hold ("the file's line table"): the contents split at the newline
  bytes, so that contents with \<open>n\<close> newlines have \<open>n + 1\<close> lines.
\<close>

fun lineTable :: "string \<Rightarrow> string list" where
  "lineTable [] = [[]]"
| "lineTable (c # cs) =
     (if c = CHR 0x0A then [] # lineTable cs
      else (c # hd (lineTable cs)) # tl (lineTable cs))"

text \<open>
  Modelled from the spec: the byte offset at which line \<open>n\<close> of a line table
  starts, for \<open>offsetForPosition\<close>, which the sources do not hold.
\<close>

definition lineStart :: "string list \<Rightarrow> nat \<Rightarrow> nat" where
  "lineStart ls n = sum_list (map (\<lambda>l. Suc (length l)) (take n ls))"

text \<open>
  Modelled from the spec: \<open>offsetForPosition\<close>, which the sources do not hold. The
  spec's Position Resolver "converts a (file, line, column) location plus file
  contents into a byte offset" and "fails with InvalidPosition when the line/column
  falls outside the file's line table or the column exceeds the line's byte length;
  the failure carries a human-readable reason (e.g., "line out of range", "column
  beyond line end")". The result is the offset, whether the position is valid, and
  the reason when it is not.
\<close>

definition offsetForPosition :: "string \<Rightarrow> Position \<Rightarrow> int \<times> bool \<times> string" where
  "offsetForPosition contents p =
     (let ls = lineTable contents in
      if Line p < 0 \<or> int (length ls) \<le> Line p then (0, False, ''line out of range'')
      else if Character p < 0 \<or> int (length (ls ! nat (Line p))) < Character p
      then (0, False, ''column beyond line end'')
      else (int (lineStart ls (nat (Line p))) + Character p, True, []))"

text \<open>A handler for the examples: one package with one registered file.\<close>

definition example_pkg :: Package where
  "example_pkg =
     \<lparr>Name = ''pkg'', PkgPath = ''example.com/pkg'', GoFiles = [''a.go''],
      Fset = [\<lparr>File_Name = ''/src/pkg/a.go'', File_base = 1, File_size = 5\<rparr>]\<rparr>"

definition example_handler :: Collaborators where
  "example_handler =
     \<lparr>IsURI = (\<lambda>uri. take 7 uri = ''file://''),
      PathEqual = (\<lambda>a b. a = b),
      FilePath = drop 7,
      IsDir = (\<lambda>f. False),
      path_Dir = (\<lambda>f. ''/src/pkg''),
      path_Base = (\<lambda>f. ''a.go''),
      packageCache_Load = (\<lambda>dir. (Some example_pkg, None)),
      readFile = (\<lambda>uri. ([CHR ''a'', CHR ''b'', CHR 0x0A, CHR ''c'', CHR ''d''], None))\<rparr>"

section \<open>The analysis and its cache\<close>

text \<open>\<open>*build.Package\<close>, with the fields \<open>cachedTypecheck\<close> and \<open>typecheck\<close> read.\<close>

record build_Package =
  ImportPath :: string
  Dir :: string
  Name_b :: string
  GoFiles_b :: "string list"
  TestGoFiles :: "string list"
  XTestGoFiles :: "string list"

text \<open>
  \<open>diagnostics\<close> maps a file to its messages; nil is the empty list. The program
  of the loader is a type parameter.
\<close>

type_synonym diagnostics = "(string \<times> string list) list"

text \<open>
  Lines 186-188: \<open>for i, filename := range goFiles { goFiles[i] = buildutil.JoinPath(bctx, bpkg.Dir, filename) }\<close>,
  with \<open>buildutil.JoinPath\<close> under the build context as the parameter \<open>JoinPath\<close>.
\<close>

function JoinPath_loop :: "(string \<Rightarrow> string \<Rightarrow> string) \<Rightarrow> string \<Rightarrow> string list \<Rightarrow> nat \<Rightarrow> string list" where
  "JoinPath_loop JoinPath dir goFiles i =
     (if i < length goFiles
      then JoinPath_loop JoinPath dir (goFiles[i := JoinPath dir (goFiles ! i)]) (Suc i)
      else goFiles)"
  by pat_completeness auto
termination
  by (relation "measure (\<lambda>(JoinPath, dir, goFiles, i). length goFiles - i)") auto

declare JoinPath_loop.simps [simp del]

text \<open>Lines 180-188: the file list given to the loader.\<close>

definition typecheck_goFiles :: "(string \<Rightarrow> string \<Rightarrow> string) \<Rightarrow> build_Package \<Rightarrow> string list" where
  "typecheck_goFiles JoinPath bpkg =
     (let goFiles0 = [] @ GoFiles_b bpkg;
          goFiles1 = goFiles0 @ TestGoFiles bpkg;
          goFiles2 = (if HasSuffix (Name_b bpkg) ''_test'' then goFiles1 @ XTestGoFiles bpkg
                      else goFiles1)
      in JoinPath_loop JoinPath (Dir bpkg) goFiles2 0)"

text \<open>
  \<open>typecheck\<close> (lines 135-199). The loader is the parameter \<open>Load\<close>:
  \<open>conf.CreateFromFilenames(bpkg.ImportPath, goFiles...)\<close> and \<open>conf.Load()\<close> under
  the configuration of lines 137-164, given the import path, the working directory
  and the files; it returns \<open>prog\<close> and \<open>err\<close>, the errors its \<open>Error\<close> callback
  appended to \<open>typeErrs\<close>, and the files it registered in \<open>fset\<close>, and it changes the
  world \<open>'w\<close> it reads. \<open>errsToDiagnostics\<close> is not in the sources and is a
  parameter. The result is \<open>(prog, diags, err)\<close>, then the file set and the world.
\<close>

definition typecheck ::
  "(string \<Rightarrow> string \<Rightarrow> string)
   \<Rightarrow> (string \<Rightarrow> string \<Rightarrow> string list \<Rightarrow> 'w \<Rightarrow> ('p option \<times> error option \<times> error list \<times> File list) \<times> 'w)
   \<Rightarrow> (error list \<Rightarrow> 'p option \<Rightarrow> diagnostics \<times> error option)
   \<Rightarrow> build_Package \<Rightarrow> 'w
   \<Rightarrow> ('p option \<times> diagnostics \<times> error option) \<times> File list \<times> 'w" where
  "typecheck JoinPath Load errsToDiagnostics bpkg w =
     (let goFiles = typecheck_goFiles JoinPath bpkg in
      case Load (ImportPath bpkg) (Dir bpkg) goFiles w of
        ((prog, err, typeErrs, fset), w') \<Rightarrow>
          if err \<noteq> None \<and> prog = None then ((None, [], err), fset, w')
          else
            (case errsToDiagnostics typeErrs prog of
               (diags, err2) \<Rightarrow>
                 if err2 \<noteq> None then ((None, [], err2), fset, w')
                 else ((prog, diags, None), fset, w')))"

record typecheckKey =
  importPath :: string
  srcDir :: string
  name :: string

record 'p typecheckResult =
  fset :: "File list"
  prog :: "'p option"
  err :: "error option"

text \<open>
  The closure of lines 119-125, on the state it works on: the captured variable
  \<open>diags\<close> and the world. It always returns a result (never nil).
\<close>

definition cachedTypecheck_fill ::
  "(string \<Rightarrow> string \<Rightarrow> string)
   \<Rightarrow> (string \<Rightarrow> string \<Rightarrow> string list \<Rightarrow> 'w \<Rightarrow> ('p option \<times> error option \<times> error list \<times> File list) \<times> 'w)
   \<Rightarrow> (error list \<Rightarrow> 'p option \<Rightarrow> diagnostics \<times> error option)
   \<Rightarrow> build_Package \<Rightarrow> diagnostics \<times> 'w \<Rightarrow> 'p typecheckResult option \<times> diagnostics \<times> 'w" where
  "cachedTypecheck_fill JoinPath Load errsToDiagnostics bpkg s =
     (case s of
        (diags, w) \<Rightarrow>
          (case typecheck JoinPath Load errsToDiagnostics bpkg w of
             ((prog', diags', err'), fset', w') \<Rightarrow>
               (Some \<lparr>fset = fset', prog = prog', err = err'\<rparr>, diags', w')))"

text \<open>
  \<open>cachedTypecheck\<close> (lines 109-132). The cache's \<open>Get\<close> is not in the sources and
  is a parameter: it is given the cache, the key, the closure and the state the
  closure works on, and returns the value (nil or a result), that state and the
  cache. The span is started before the cache is asked and, being deferred, is
  finished on return.
\<close>

definition cachedTypecheck ::
  "('c \<Rightarrow> typecheckKey \<Rightarrow> (diagnostics \<times> 'w \<Rightarrow> 'p typecheckResult option \<times> diagnostics \<times> 'w)
      \<Rightarrow> diagnostics \<times> 'w \<Rightarrow> 'p typecheckResult option \<times> (diagnostics \<times> 'w) \<times> 'c)
   \<Rightarrow> (string \<Rightarrow> string \<Rightarrow> string)
   \<Rightarrow> (string \<Rightarrow> string \<Rightarrow> string list \<Rightarrow> 'w \<Rightarrow> ('p option \<times> error option \<times> error list \<times> File list) \<times> 'w)
   \<Rightarrow> (error list \<Rightarrow> 'p option \<Rightarrow> diagnostics \<times> error option)
   \<Rightarrow> Context \<Rightarrow> build_Package option \<Rightarrow> 'c \<Rightarrow> 'w \<Rightarrow> tracer
   \<Rightarrow> (File list option \<times> 'p option \<times> diagnostics \<times> error option) go \<times> 'c \<times> 'w \<times> tracer" where
  "cachedTypecheck Get JoinPath Load errsToDiagnostics ctx bpkg c w tr =
     (case SpanFromContext ctx of
        None \<Rightarrow> (Panic, c, w, tr)
      | Some parentSpan \<Rightarrow>
          (case bpkg of
             None \<Rightarrow> (Panic, c, w, tr)
           | Some b \<Rightarrow>
               (case StartSpan tr ''langserver-go: typecheck'' [(''pkg'', ImportPath b)] parentSpan of
                  (span, tr1) \<Rightarrow>
                    (case Get c \<lparr>importPath = ImportPath b, srcDir = Dir b, name = Name_b b\<rparr>
                            (cachedTypecheck_fill JoinPath Load errsToDiagnostics b) ([], w) of
                       (None, (diags, w'), c') \<Rightarrow>
                         (Ret (None, None, diags, None), c', w', Finish tr1 span)
                     | (Some res, (diags, w'), c') \<Rightarrow>
                         (Ret (Some (fset res), prog res, diags, err res), c', w', Finish tr1 span)))))"

text \<open>
  Modelled from the spec: the cache's \<open>Get\<close>, which the sources do not hold, for
  one caller at a time. "On first call for a key, ... invokes computeFn exactly once,
  stores the result (success or failure), and returns it. Subsequent calls with the
  same key return the stored result without recomputation." A stored value is what
  \<open>computeFn\<close> returned, nil included.
\<close>

definition cache_Get ::
  "(typecheckKey \<rightharpoonup> 'v option) \<Rightarrow> typecheckKey \<Rightarrow> ('s \<Rightarrow> 'v option \<times> 's) \<Rightarrow> 's
     \<Rightarrow> 'v option \<times> 's \<times> (typecheckKey \<rightharpoonup> 'v option)" where
  "cache_Get c key computeFn s =
     (case c key of
        Some v \<Rightarrow> (v, s, c)
      | None \<Rightarrow> (case computeFn s of (v, s') \<Rightarrow> (v, s', c(key \<mapsto> v))))"

text \<open>
  Collaborators for the examples: a loader that counts its runs in the world and
  returns the files as the program, with one type error; a conversion that keeps the
  messages, and one that fails.
\<close>

definition example_JoinPath :: "string \<Rightarrow> string \<Rightarrow> string" where
  "example_JoinPath dir file = dir @ ''/'' @ file"

definition example_Load ::
  "string \<Rightarrow> string \<Rightarrow> string list \<Rightarrow> nat
     \<Rightarrow> (string list option \<times> error option \<times> error list \<times> File list) \<times> nat" where
  "example_Load path cwd files n = ((Some files, None, [ErrOther ''undeclared name: x''], []), Suc n)"

definition example_errsToDiagnostics :: "error list \<Rightarrow> string list option \<Rightarrow> diagnostics \<times> error option" where
  "example_errsToDiagnostics typeErrs p = ([(''a.go'', [''undeclared name: x''])], None)"

definition failing_errsToDiagnostics :: "error list \<Rightarrow> string list option \<Rightarrow> diagnostics \<times> error option" where
  "failing_errsToDiagnostics typeErrs p = ([], Some (ErrOther ''unexpected type error''))"

definition example_bpkg :: build_Package where
  "example_bpkg =
     \<lparr>ImportPath = ''example.com/pkg'', Dir = ''/src/pkg'', Name_b = ''pkg'',
      GoFiles_b = [''a.go''], TestGoFiles = [''a_test.go''], XTestGoFiles = [''x_test.go'']\<rparr>"

definition example_key :: typecheckKey where
  "example_key = \<lparr>importPath = ''example.com/pkg'', srcDir = ''/src/pkg'', name = ''pkg''\<rparr>"



definition nil_cache :: "typecheckKey \<rightharpoonup> string list typecheckResult option" where
  "nil_cache = Map.empty(example_key \<mapsto> None)"

section \<open>The disambiguation on a heap\<close>

text \<open>
  \<open>buildPackageForNamedFileInMultiPackageDir\<close> once more, now with the memory it
  works on, for what the caller's package looks like after the call. A heap holds
  the \<open>packages.Package\<close> structs and the backing arrays of string slices; an
  address is an index, so that a new struct or array never has the address of an old
  one. A slice is a backing array (none for the nil slice), an offset into it, a
  length and a capacity.
\<close>

record slice =
  sl_array :: "nat option"
  sl_off :: nat
  sl_len :: nat
  sl_cap :: nat

record Package_struct =
  s_Name :: string
  s_PkgPath :: string
  s_GoFiles :: slice
  s_Fset :: "File list"

record heap =
  structs :: "Package_struct list"
  arrays :: "string list list"

definition nil_slice :: slice where
  "nil_slice = \<lparr>sl_array = None, sl_off = 0, sl_len = 0, sl_cap = 0\<rparr>"

text \<open>\<open>s[i]\<close> and the elements of \<open>s\<close>, read from the heap.\<close>

definition slice_nth :: "heap \<Rightarrow> slice \<Rightarrow> nat \<Rightarrow> string" where
  "slice_nth h s i =
     (case sl_array s of
        None \<Rightarrow> []
      | Some a \<Rightarrow>
          if a < length (arrays h) \<and> sl_off s + i < length (arrays h ! a)
          then arrays h ! a ! (sl_off s + i) else [])"

definition slice_elems :: "heap \<Rightarrow> slice \<Rightarrow> string list" where
  "slice_elems h s = map (slice_nth h s) [0 ..< sl_len s]"

text \<open>
  \<open>append(s, x)\<close>: with room left, \<open>x\<close> is written into the backing array of \<open>s\<close>
  behind its last element; without, a new array is allocated, the elements are
  copied into it and \<open>x\<close> is written behind them. How far the capacity grows is
  the runtime's choice, the parameter \<open>grow\<close>.
\<close>

definition append_h :: "(nat \<Rightarrow> nat) \<Rightarrow> slice \<Rightarrow> string \<Rightarrow> heap \<Rightarrow> slice \<times> heap" where
  "append_h grow s x h =
     (case (if sl_len s < sl_cap s then sl_array s else None) of
        Some a \<Rightarrow>
          (s\<lparr>sl_len := Suc (sl_len s)\<rparr>,
           h\<lparr>arrays := (arrays h)[a := (arrays h ! a)[sl_off s + sl_len s := x]]\<rparr>)
      | None \<Rightarrow>
          (let newcap = max (Suc (sl_len s)) (grow (sl_cap s));
               fresh = slice_elems h s @ [x] @ replicate (newcap - Suc (sl_len s)) []
           in (\<lparr>sl_array = Some (length (arrays h)), sl_off = 0, sl_len = Suc (sl_len s),
                sl_cap = newcap\<rparr>,
               h\<lparr>arrays := arrays h @ [fresh]\<rparr>)))"

text \<open>
  Lines 62-70 on the heap: \<open>for _, f := range files\<close> reads \<open>files[i]\<close> at each
  step, and \<open>keep = append(keep, f)\<close> may write to the heap.
\<close>

function filterToFilesInPackage_h ::
  "(nat \<Rightarrow> nat) \<Rightarrow> gomap \<Rightarrow> slice \<Rightarrow> string \<Rightarrow> nat \<Rightarrow> slice \<Rightarrow> heap \<Rightarrow> slice \<times> heap" where
  "filterToFilesInPackage_h grow mp files pkgName i keep h =
     (if i < sl_len files
      then (let f = slice_nth h files i in
            if lookup mp f = pkgName
            then (case append_h grow keep f h of
                    (keep', h') \<Rightarrow> filterToFilesInPackage_h grow mp files pkgName (Suc i) keep' h')
            else filterToFilesInPackage_h grow mp files pkgName (Suc i) keep h)
      else (keep, h))"
  by pat_completeness auto
termination
  by (relation "measure (\<lambda>(grow, mp, files, pkgName, i, keep, h). sl_len files - i)") auto

declare filterToFilesInPackage_h.simps [simp del]

text \<open>
  Lines 47-91 on the heap. \<open>copy := *bpkg; bpkg = &copy\<close> allocates a struct with
  the fields of the caller's; the two assignments of lines 74 and 89 write to it. The
  pointer returned is the address of the copy.
\<close>

definition buildPackageForNamedFileInMultiPackageDir_h ::
  "(nat \<Rightarrow> nat) \<Rightarrow> nat option \<Rightarrow> MultiplePackageError \<Rightarrow> string \<Rightarrow> heap
     \<Rightarrow> (nat option \<times> error option) go \<times> heap" where
  "buildPackageForNamedFileInMultiPackageDir_h grow bpkg m filename h =
     (case (case bpkg of None \<Rightarrow> None
            | Some p \<Rightarrow> if p < length (structs h) then Some (structs h ! p) else None) of
        None \<Rightarrow> (Panic, h)
      | Some copy \<Rightarrow>
          (let q = length (structs h);
               h1 = h\<lparr>structs := structs h @ [copy]\<rparr>
           in case fileToPkgName m of
                Panic \<Rightarrow> (Panic, h1)
              | Ret mp \<Rightarrow>
                  (let pkgName = lookup mp filename in
                   if pkgName = [] then (Ret (None, Some (ErrNoFile (s_PkgPath copy) filename)), h1)
                   else
                     (let h2 = h1\<lparr>structs := (structs h1)[q := (structs h1 ! q)\<lparr>s_Name := pkgName\<rparr>]\<rparr>;
                          nonXTestPkgName =
                            (if HasSuffix pkgName ''_test'' then TrimSuffix pkgName ''_test''
                             else pkgName)
                      in case filterToFilesInPackage_h grow mp (s_GoFiles (structs h2 ! q))
                                nonXTestPkgName 0 nil_slice h2 of
                           (keep, h3) \<Rightarrow>
                             (Ret (Some q, None),
                              h3\<lparr>structs := (structs h3)[q := (structs h3 ! q)\<lparr>s_GoFiles := keep\<rparr>]\<rparr>)))))"

text \<open>The package a struct stands for, its \<open>GoFiles\<close> read from the heap.\<close>

definition read_Package :: "heap \<Rightarrow> Package_struct \<Rightarrow> Package" where
  "read_Package h s =
     \<lparr>Name = s_Name s, PkgPath = s_PkgPath s, GoFiles = slice_elems h (s_GoFiles s),
      Fset = s_Fset s\<rparr>"

text \<open>A heap for the examples: one package whose \<open>GoFiles\<close> fill their array.\<close>

definition example_heap :: heap where
  "example_heap =
     \<lparr>structs = [\<lparr>s_Name = ''pkg'', s_PkgPath = ''example.com/pkg'',
                   s_GoFiles = \<lparr>sl_array = Some 0, sl_off = 0, sl_len = 2, sl_cap = 2\<rparr>,
                   s_Fset = []\<rparr>],
      arrays = [[''a.go'', ''a_test.go'']]\<rparr>"

definition example_error :: MultiplePackageError where
  "example_error =
     \<lparr>Dir_m = ''/src/pkg'', Packages = [''pkg'', ''pkg_test''], Files = [''a.go'', ''a_test.go'']\<rparr>"

text \<open>
  A slice is new with respect to the first \<open>n\<close> arrays of a heap when it is nil or
  its backing array is a later one.
\<close>

definition fresh_slice :: "nat \<Rightarrow> heap \<Rightarrow> slice \<Rightarrow> bool" where
  "fresh_slice n h s =
     (case sl_array s of None \<Rightarrow> True | Some a \<Rightarrow> n \<le> a \<and> a < length (arrays h))"

text \<open>
  A slice of a heap is well formed when it is the nil slice with no elements, or its
  backing array is in the heap and holds its capacity from its offset on.
\<close>

definition wf_slice :: "heap \<Rightarrow> slice \<Rightarrow> bool" where
  "wf_slice h s =
     (case sl_array s of
        None \<Rightarrow> sl_len s = 0
      | Some a \<Rightarrow>
          a < length (arrays h) \<and> sl_off s + sl_cap s \<le> length (arrays h ! a)
          \<and> sl_len s \<le> sl_cap s)"

section \<open>Lemmas about the model\<close>

lemma map_add_upd_zip:
  "i < length pkgs \<Longrightarrow>
   (mp(f \<mapsto> pkgs ! i)) ++ map_of (rev (zip fs (drop (Suc i) pkgs)))
     = mp ++ map_of (rev (zip (f # fs) (drop i pkgs)))"
  by (simp add: Cons_nth_drop_Suc [symmetric] map_add_def fun_eq_iff split: option.splits)

lemma fileToPkgName_loop_Ret:
  "length fs + i \<le> length pkgs \<Longrightarrow>
   fileToPkgName_loop fs pkgs i mp = Ret (mp ++ map_of (rev (zip fs (drop i pkgs))))"
proof (induction fs arbitrary: i mp)
  case Nil
  then show ?case by simp
next
  case (Cons f fs)
  then have i: "i < length pkgs" and rest: "length fs + Suc i \<le> length pkgs"
    by simp_all
  show ?case
    by (simp only: fileToPkgName_loop.simps i if_True Cons.IH [OF rest] map_add_upd_zip [OF i])
qed

lemma fileToPkgName_loop_Panic:
  "fs \<noteq> [] \<Longrightarrow> length pkgs < length fs + i \<Longrightarrow> fileToPkgName_loop fs pkgs i mp = Panic"
proof (induction fs arbitrary: i mp)
  case Nil
  then show ?case by simp
next
  case (Cons f fs)
  then show ?case by (cases fs) auto
qed

lemma fileToPkgName_Ret:
  "length (Files m) \<le> length (Packages m) \<Longrightarrow> fileToPkgName m = Ret (declared m)"
  by (simp add: fileToPkgName_def declared_def fileToPkgName_loop_Ret)

lemma fileToPkgName_Panic:
  "length (Packages m) < length (Files m) \<Longrightarrow> fileToPkgName m = Panic"
  by (rule fileToPkgName_loop_Panic [of "Files m" "Packages m" 0 Map.empty, folded fileToPkgName_def]) auto

lemma fst_set_zip:
  "length xs \<le> length ys \<Longrightarrow> fst ` set (zip xs ys) = set xs"
proof -
  assume "length xs \<le> length ys"
  then have "map fst (zip xs ys) = xs"
    by (simp add: map_fst_zip_take)
  then have "set (map fst (zip xs ys)) = set xs" by simp
  then show ?thesis by simp
qed

lemma declared_None_iff:
  "length (Files m) \<le> length (Packages m) \<Longrightarrow> declared m f = None \<longleftrightarrow> f \<notin> set (Files m)"
  by (simp add: declared_def map_of_eq_None_iff fst_set_zip)

text \<open>Where no file is listed twice, \<open>declared\<close> pairs \<open>Files[i]\<close> with \<open>Packages[i]\<close>.\<close>

lemma declared_nth:
  assumes "distinct (Files m)" "i < length (Files m)" "i < length (Packages m)"
  shows "declared m (Files m ! i) = Some (Packages m ! i)"
proof -
  have mem: "(Files m ! i, Packages m ! i) \<in> set (rev (zip (Files m) (Packages m)))"
    using assms(2,3) by (auto simp: set_zip)
  have "map fst (rev (zip (Files m) (Packages m)))
          = rev (take (min (length (Files m)) (length (Packages m))) (Files m))"
    by (simp only: rev_map [symmetric] map_fst_zip_take)
  then have "distinct (map fst (rev (zip (Files m) (Packages m))))"
    using assms(1) by simp
  then show ?thesis
    unfolding declared_def using mem by (rule map_of_is_SomeI)
qed

lemma filterToFilesInPackage_loop_filter:
  "filterToFilesInPackage_loop mp files pkgName keep
     = keep @ filter (\<lambda>f. lookup mp f = pkgName) files"
  by (induction files arbitrary: keep) auto

lemma filterToFilesInPackage_filter:
  "filterToFilesInPackage mp files pkgName = filter (\<lambda>f. lookup mp f = pkgName) files"
  by (simp add: filterToFilesInPackage_def filterToFilesInPackage_loop_filter)

lemma HasSuffix_append: "HasSuffix (base @ suf) suf"
  by (simp add: HasSuffix_def)

lemma TrimSuffix_append: "TrimSuffix (base @ suf) suf = base"
  by (simp add: TrimSuffix_def HasSuffix_def)

text \<open>The function in closed form, where building the map does not panic.\<close>

lemma buildPackage_closed_form:
  "length (Files m) \<le> length (Packages m) \<Longrightarrow>
   buildPackageForNamedFileInMultiPackageDir (Some bpkg) m filename =
     (if lookup (declared m) filename = []
      then Ret (None, Some (ErrNoFile (PkgPath bpkg) filename))
      else Ret (Some (bpkg\<lparr>Name := lookup (declared m) filename,
                          GoFiles := filter (\<lambda>f. lookup (declared m) f =
                              TrimSuffix (lookup (declared m) filename) ''_test'') (GoFiles bpkg)\<rparr>),
                None))"
  by (simp add: buildPackageForNamedFileInMultiPackageDir_def fileToPkgName_Ret
      filterToFilesInPackage_filter TrimSuffix_def Let_def)

lemma Iterate_find_None:
  "Iterate_find pe fs filename = None \<longleftrightarrow> (\<forall>ff \<in> set fs. \<not> pe (File_Name ff) filename)"
  by (induction fs) auto

lemma Iterate_find_Some:
  "Iterate_find pe fs filename = Some f \<longleftrightarrow>
     (\<exists>before after. fs = before @ f # after \<and> pe (File_Name f) filename
        \<and> (\<forall>g \<in> set before. \<not> pe (File_Name g) filename))"
proof (induction fs)
  case Nil
  then show ?case by simp
next
  case (Cons a fs)
  show ?case
  proof (cases "pe (File_Name a) filename")
    case True
    have "(\<exists>before after. a # fs = before @ f # after \<and> pe (File_Name f) filename
        \<and> (\<forall>g \<in> set before. \<not> pe (File_Name g) filename)) \<longleftrightarrow> a = f"
    proof
      assume "\<exists>before after. a # fs = before @ f # after \<and> pe (File_Name f) filename
        \<and> (\<forall>g \<in> set before. \<not> pe (File_Name g) filename)"
      then obtain before after where *: "a # fs = before @ f # after"
        "\<forall>g \<in> set before. \<not> pe (File_Name g) filename" by blast
      show "a = f"
      proof (cases before)
        case Nil
        with * show ?thesis by simp
      next
        case (Cons b bs)
        with * True show ?thesis by auto
      qed
    next
      assume "a = f"
      then have "a # fs = [] @ f # fs \<and> pe (File_Name f) filename
        \<and> (\<forall>g \<in> set []. \<not> pe (File_Name g) filename)" using True by simp
      then show "\<exists>before after. a # fs = before @ f # after \<and> pe (File_Name f) filename
        \<and> (\<forall>g \<in> set before. \<not> pe (File_Name g) filename)" by blast
    qed
    then show ?thesis using True by auto
  next
    case False
    have "(\<exists>before after. a # fs = before @ f # after \<and> pe (File_Name f) filename
        \<and> (\<forall>g \<in> set before. \<not> pe (File_Name g) filename))
      \<longleftrightarrow> (\<exists>before after. fs = before @ f # after \<and> pe (File_Name f) filename
        \<and> (\<forall>g \<in> set before. \<not> pe (File_Name g) filename))" (is "?L \<longleftrightarrow> ?R")
    proof
      assume ?L
      then obtain before after where *: "a # fs = before @ f # after" "pe (File_Name f) filename"
        "\<forall>g \<in> set before. \<not> pe (File_Name g) filename" by blast
      show ?R
      proof (cases before)
        case Nil
        with * False show ?thesis by simp
      next
        case (Cons b bs)
        with * have "fs = bs @ f # after" "\<forall>g \<in> set bs. \<not> pe (File_Name g) filename" by auto
        with *(2) show ?thesis by blast
      qed
    next
      assume ?R
      then obtain before after where *: "fs = before @ f # after" "pe (File_Name f) filename"
        "\<forall>g \<in> set before. \<not> pe (File_Name g) filename" by blast
      then have "a # fs = (a # before) @ f # after" 
        "\<forall>g \<in> set (a # before). \<not> pe (File_Name g) filename" using False by auto
      with *(2) show ?L by blast
    qed
    then show ?thesis using False Cons.IH by simp
  qed
qed

lemma loadPackage_reaches_position:
  assumes "SpanFromContext ctx = Some parentSpan"
    and "IsURI h fileURI"
    and "loadPackage_pkg h (FilePath h fileURI) = Ret (pkg, None)"
  shows "fst (loadPackage h ofp ctx fileURI position tr)
           = loadPackage_position h ofp fileURI (FilePath h fileURI) position pkg"
  using assms by (simp add: loadPackage_def loadPackage_body_def StartSpan_def)

lemma offsetForPosition_invalid:
  assumes "Line p < 0 \<or> int (length (lineTable contents)) \<le> Line p
         \<or> Character p < 0 \<or> int (length (lineTable contents ! nat (Line p))) < Character p"
  shows "\<exists>why. why \<noteq> [] \<and> offsetForPosition contents p = (0, False, why)"
  using assms by (auto simp: offsetForPosition_def Let_def)

lemma example_pkg_step:
  "loadPackage_pkg example_handler f = Ret (Some example_pkg, None)"
  by (simp add: loadPackage_pkg_def load_def example_handler_def)

lemma HasSuffix_iff_suffix: "HasSuffix s t \<longleftrightarrow> suffix t s"
proof
  assume "HasSuffix s t"
  then have "s = take (length s - length t) s @ t"
    by (metis HasSuffix_def append_take_drop_id)
  then show "suffix t s" by (rule suffixI)
next
  assume "suffix t s"
  then obtain u where "s = u @ t" by (rule suffixE)
  then show "HasSuffix s t" by (simp add: HasSuffix_def)
qed

lemma JoinPath_loop_map:
  "i \<le> length goFiles \<Longrightarrow>
   JoinPath_loop jp dir goFiles i = take i goFiles @ map (jp dir) (drop i goFiles)"
proof (induction jp dir goFiles i rule: JoinPath_loop.induct)
  case (1 jp dir goFiles i)
  show ?case
  proof (cases "i < length goFiles")
    case True
    let ?g = "goFiles[i := jp dir (goFiles ! i)]"
    have "JoinPath_loop jp dir goFiles i = JoinPath_loop jp dir ?g (Suc i)"
      using True by (subst JoinPath_loop.simps) simp
    also have "\<dots> = take (Suc i) ?g @ map (jp dir) (drop (Suc i) ?g)"
      using True by (intro "1.IH") simp_all
    also have "\<dots> = take i goFiles @ map (jp dir) (drop i goFiles)"
      using True by (simp add: take_Suc_conv_app_nth Cons_nth_drop_Suc [symmetric])
    finally show ?thesis .
  next
    case False
    with "1.prems" have "i = length goFiles" by simp
    then show ?thesis by (subst JoinPath_loop.simps) simp
  qed
qed

lemma example_key_of_bpkg:
  "\<lparr>importPath = ImportPath example_bpkg, srcDir = Dir example_bpkg, name = Name_b example_bpkg\<rparr>
     = example_key"
  by (simp add: example_bpkg_def example_key_def)

lemma append_h_frame:
  assumes "fresh_slice n h keep" and "n \<le> length (arrays h)"
    and "append_h grow keep x h = (keep', h')"
  shows "take n (arrays h') = take n (arrays h) \<and> structs h' = structs h
       \<and> fresh_slice n h' keep' \<and> n \<le> length (arrays h')"
proof (cases "if sl_len keep < sl_cap keep then sl_array keep else None")
  case None
  with assms(3) have
    "keep' = \<lparr>sl_array = Some (length (arrays h)), sl_off = 0, sl_len = Suc (sl_len keep),
        sl_cap = max (Suc (sl_len keep)) (grow (sl_cap keep))\<rparr>"
    and "\<exists>fresh. h' = h\<lparr>arrays := arrays h @ [fresh]\<rparr>"
    by (auto simp: append_h_def Let_def)
  then show ?thesis
    using assms(2) by (auto simp: fresh_slice_def)
next
  case (Some a)
  then have a: "sl_array keep = Some a"
    by (simp split: if_splits)
  from Some assms(3) have
    k: "keep' = keep\<lparr>sl_len := Suc (sl_len keep)\<rparr>"
    and h: "h' = h\<lparr>arrays := (arrays h)[a := (arrays h ! a)[sl_off keep + sl_len keep := x]]\<rparr>"
    by (auto simp: append_h_def)
  have "n \<le> a" "a < length (arrays h)"
    using assms(1) a by (simp_all add: fresh_slice_def)
  then show ?thesis
    using assms(2) by (simp add: k h fresh_slice_def a)
qed

lemma filterToFilesInPackage_h_frame:
  "fresh_slice n h keep \<Longrightarrow> n \<le> length (arrays h) \<Longrightarrow>
   filterToFilesInPackage_h grow mp files pkgName i keep h = (keep', h') \<Longrightarrow>
   take n (arrays h') = take n (arrays h) \<and> structs h' = structs h
     \<and> fresh_slice n h' keep' \<and> n \<le> length (arrays h')"
proof (induction grow mp files pkgName i keep h rule: filterToFilesInPackage_h.induct)
  case (1 grow mp files pkgName i keep h)
  show ?case
  proof (cases "i < sl_len files")
    case False
    with "1.prems"(3) have "keep' = keep" "h' = h"
      by (simp_all add: filterToFilesInPackage_h.simps)
    with "1.prems"(1,2) show ?thesis by simp
  next
    case True
    show ?thesis
    proof (cases "lookup mp (slice_nth h files i) = pkgName")
      case False
      with True "1.prems"(3) have
        "filterToFilesInPackage_h grow mp files pkgName (Suc i) keep h = (keep', h')"
        by (simp add: filterToFilesInPackage_h.simps [of _ _ _ _ i])
      with "1.IH"(2) [OF True refl False "1.prems"(1,2)] show ?thesis by simp
    next
      case kept: True
      obtain keep1 h1 where ap: "append_h grow keep (slice_nth h files i) h = (keep1, h1)"
        by (cases "append_h grow keep (slice_nth h files i) h")
      from append_h_frame [OF "1.prems"(1,2) ap]
      have f1: "take n (arrays h1) = take n (arrays h)" "structs h1 = structs h"
        "fresh_slice n h1 keep1" "n \<le> length (arrays h1)" by simp_all
      from True kept ap "1.prems"(3) have
        "filterToFilesInPackage_h grow mp files pkgName (Suc i) keep1 h1 = (keep', h')"
        by (simp add: filterToFilesInPackage_h.simps [of _ _ _ _ i])
      from "1.IH"(1) [OF True refl kept ap [symmetric] f1(3,4) this] f1(1,2)
      show ?thesis by simp
    qed
  qed
qed

lemma fresh_slice_nil: "fresh_slice n h nil_slice"
  by (simp add: fresh_slice_def nil_slice_def)

lemma length_slice_elems: "length (slice_elems h s) = sl_len s"
  by (simp add: slice_elems_def)

lemma slice_elems_nth: "i < sl_len s \<Longrightarrow> slice_elems h s ! i = slice_nth h s i"
  by (simp add: slice_elems_def)

lemma slice_elems_cong:
  "sl_len s' = sl_len s \<Longrightarrow> (\<And>i. i < sl_len s \<Longrightarrow> slice_nth h' s' i = slice_nth h s i) \<Longrightarrow>
   slice_elems h' s' = slice_elems h s"
  by (simp add: slice_elems_def)

lemma append_h_elems:
  assumes "wf_slice h keep" and "append_h grow keep x h = (keep', h')"
  shows "slice_elems h' keep' = slice_elems h keep @ [x] \<and> wf_slice h' keep'"
proof (cases "if sl_len keep < sl_cap keep then sl_array keep else None")
  case None
  let ?newcap = "max (Suc (sl_len keep)) (grow (sl_cap keep))"
  let ?fresh = "slice_elems h keep @ [x] @ replicate (?newcap - Suc (sl_len keep)) []"
  from None assms(2) have
    k: "keep' = \<lparr>sl_array = Some (length (arrays h)), sl_off = 0, sl_len = Suc (sl_len keep),
        sl_cap = ?newcap\<rparr>"
    and h: "h' = h\<lparr>arrays := arrays h @ [?fresh]\<rparr>"
    by (auto simp: append_h_def Let_def)
  have len: "length ?fresh = ?newcap"
    by (simp add: length_slice_elems)
  have nth: "\<And>i. i < Suc (sl_len keep) \<Longrightarrow> slice_nth h' keep' i = (slice_elems h keep @ [x]) ! i"
  proof -
    fix i assume i: "i < Suc (sl_len keep)"
    then have "i < length ?fresh" unfolding len by simp
    then have "slice_nth h' keep' i = ?fresh ! i"
      unfolding k h by (simp add: slice_nth_def)
    also have "\<dots> = (slice_elems h keep @ [x]) ! i"
      using i by (simp add: nth_append length_slice_elems)
    finally show "slice_nth h' keep' i = (slice_elems h keep @ [x]) ! i" .
  qed
  have "slice_elems h' keep' = slice_elems h keep @ [x]"
    by (rule nth_equalityI) (simp_all add: length_slice_elems k slice_elems_nth nth [unfolded k])
  moreover have "wf_slice h' keep'"
    unfolding k h wf_slice_def using len by simp
  ultimately show ?thesis by simp
next
  case (Some a)
  then have a: "sl_array keep = Some a" and room: "sl_len keep < sl_cap keep"
    by (simp_all split: if_splits)
  from Some assms(2) have
    k: "keep' = keep\<lparr>sl_len := Suc (sl_len keep)\<rparr>"
    and h: "h' = h\<lparr>arrays := (arrays h)[a := (arrays h ! a)[sl_off keep + sl_len keep := x]]\<rparr>"
    by (auto simp: append_h_def)
  have wf: "a < length (arrays h)" "sl_off keep + sl_cap keep \<le> length (arrays h ! a)"
    using assms(1) a by (simp_all add: wf_slice_def)
  have nth: "\<And>i. i < Suc (sl_len keep) \<Longrightarrow> slice_nth h' keep' i = (slice_elems h keep @ [x]) ! i"
  proof -
    fix i assume i: "i < Suc (sl_len keep)"
    then have in_range: "sl_off keep + i < length (arrays h ! a)"
      using wf(2) room by simp
    show "slice_nth h' keep' i = (slice_elems h keep @ [x]) ! i"
    proof (cases "i = sl_len keep")
      case True
      then show ?thesis
        using wf in_range by (simp add: slice_nth_def k h a nth_append length_slice_elems)
    next
      case False
      with i have "i < sl_len keep" by simp
      then show ?thesis
        using wf in_range
        by (simp add: slice_nth_def k h a nth_append length_slice_elems slice_elems_nth)
    qed
  qed
  have "slice_elems h' keep' = slice_elems h keep @ [x]"
    by (rule nth_equalityI) (simp_all add: length_slice_elems k slice_elems_nth nth [unfolded k])
  moreover have "wf_slice h' keep'"
    using wf room by (simp add: k h wf_slice_def a)
  ultimately show ?thesis by simp
qed

text \<open>An old slice reads the same in every heap that keeps the first \<open>n\<close> arrays.\<close>

lemma slice_nth_old:
  assumes "wf_slice h s" and "n = length (arrays h)" and "take n (arrays h') = take n (arrays h)"
    and "n \<le> length (arrays h')"
  shows "slice_nth h' s i = slice_nth h s i"
proof (cases "sl_array s")
  case None
  then show ?thesis by (simp add: slice_nth_def)
next
  case (Some a)
  then have a: "a < n" using assms(1,2) by (simp add: wf_slice_def)
  have "arrays h' ! a = take n (arrays h') ! a" using a by simp
  also have "\<dots> = arrays h ! a" using a assms(3) by simp
  finally show ?thesis
    using a assms(2,4) by (simp add: slice_nth_def Some)
qed

lemma filterToFilesInPackage_h_elems:
  "wf_slice h0 files \<Longrightarrow> n = length (arrays h0) \<Longrightarrow>
   take n (arrays h) = arrays h0 \<Longrightarrow> n \<le> length (arrays h) \<Longrightarrow>
   fresh_slice n h keep \<Longrightarrow> wf_slice h keep \<Longrightarrow>
   filterToFilesInPackage_h grow mp files pkgName i keep h = (keep', h') \<Longrightarrow>
   slice_elems h' keep'
     = slice_elems h keep
         @ filter (\<lambda>f. lookup mp f = pkgName) (map (slice_nth h0 files) [i ..< sl_len files])"
proof (induction grow mp files pkgName i keep h rule: filterToFilesInPackage_h.induct)
  case (1 grow mp files pkgName i keep h)
  have old: "slice_nth h files i = slice_nth h0 files i"
    using "1.prems"(1-4) by (intro slice_nth_old) simp_all
  show ?case
  proof (cases "i < sl_len files")
    case False
    with "1.prems"(7) have "keep' = keep" "h' = h"
      by (simp_all add: filterToFilesInPackage_h.simps)
    with False show ?thesis by simp
  next
    case True
    then have upt: "[i ..< sl_len files] = i # [Suc i ..< sl_len files]"
      by (simp add: upt_conv_Cons)
    show ?thesis
    proof (cases "lookup mp (slice_nth h files i) = pkgName")
      case False
      with True "1.prems"(7) have
        "filterToFilesInPackage_h grow mp files pkgName (Suc i) keep h = (keep', h')"
        by (simp add: filterToFilesInPackage_h.simps [of _ _ _ _ i])
      from "1.IH"(2) [OF True refl False "1.prems"(1-6) this] False
      show ?thesis by (simp add: upt old)
    next
      case kept: True
      obtain keep1 h1 where ap: "append_h grow keep (slice_nth h files i) h = (keep1, h1)"
        by (cases "append_h grow keep (slice_nth h files i) h")
      from append_h_frame [OF "1.prems"(5,4) ap]
      have f1: "take n (arrays h1) = take n (arrays h)" "fresh_slice n h1 keep1"
        "n \<le> length (arrays h1)" by simp_all
      from append_h_elems [OF "1.prems"(6) ap]
      have e1: "slice_elems h1 keep1 = slice_elems h keep @ [slice_nth h files i]"
        "wf_slice h1 keep1" by simp_all
      have t1: "take n (arrays h1) = arrays h0"
        using f1(1) "1.prems"(3) by simp
      from True kept ap "1.prems"(7) have
        "filterToFilesInPackage_h grow mp files pkgName (Suc i) keep1 h1 = (keep', h')"
        by (simp add: filterToFilesInPackage_h.simps [of _ _ _ _ i])
      from "1.IH"(1) [OF True refl kept ap [symmetric] "1.prems"(1,2) t1 f1(3,2) e1(2) this]
      show ?thesis using kept by (simp add: upt e1(1) old)
    qed
  qed
qed


lemma slice_nth_same_arrays:
  assumes "arrays h' = arrays h"
  shows "slice_nth h' s i = slice_nth h s i"
  unfolding slice_nth_def assms ..

lemma slice_elems_same_arrays:
  assumes "arrays h' = arrays h"
  shows "slice_elems h' s = slice_elems h s"
  unfolding slice_elems_def slice_nth_same_arrays [OF assms] ..

lemma slice_elems_map: "slice_elems h s = map (slice_nth h s) [0 ..< sl_len s]"
  by (simp add: slice_elems_def)


text \<open>
  The heap version computes what the version on values computes: the package read
  at the returned address is the package returned for the caller's package as read
  before the call.
\<close>

lemma buildPackage_h_refines:
  assumes "p < length (structs h)" and "wf_slice h (s_GoFiles (structs h ! p))"
    and "buildPackageForNamedFileInMultiPackageDir_h grow (Some p) m filename h = (r, h')"
  shows "buildPackageForNamedFileInMultiPackageDir (Some (read_Package h (structs h ! p))) m filename
           = (case r of
                Panic \<Rightarrow> Panic
              | Ret (q, e) \<Rightarrow> Ret (map_option (\<lambda>a. read_Package h' (structs h' ! a)) q, e))"
proof -
  let ?copy = "structs h ! p"
  let ?q = "length (structs h)"
  let ?h1 = "h\<lparr>structs := structs h @ [?copy]\<rparr>"
  show ?thesis
  proof (cases "fileToPkgName m")
    case Panic
    with assms(1,3) have "r = Panic"
      by (simp add: buildPackageForNamedFileInMultiPackageDir_h_def Let_def)
    then show ?thesis
      by (simp add: buildPackageForNamedFileInMultiPackageDir_def Panic)
  next
    case (Ret mp)
    show ?thesis
    proof (cases "lookup mp filename = []")
      case True
      with Ret assms(1,3) have "r = Ret (None, Some (ErrNoFile (s_PkgPath ?copy) filename))"
        by (simp add: buildPackageForNamedFileInMultiPackageDir_h_def Let_def)
      then show ?thesis
        by (simp add: buildPackageForNamedFileInMultiPackageDir_def Ret True read_Package_def)
    next
      case False
      let ?name = "lookup mp filename"
      let ?h2 = "?h1\<lparr>structs := (structs ?h1)[?q := (structs ?h1 ! ?q)\<lparr>s_Name := ?name\<rparr>]\<rparr>"
      let ?nonX = "if HasSuffix ?name ''_test'' then TrimSuffix ?name ''_test'' else ?name"
      let ?files = "s_GoFiles ?copy"
      have files: "s_GoFiles (structs ?h2 ! ?q) = ?files" by simp
      obtain keep h3 where
        f: "filterToFilesInPackage_h grow mp ?files ?nonX 0 nil_slice ?h2 = (keep, h3)"
        by (cases "filterToFilesInPackage_h grow mp ?files ?nonX 0 nil_slice ?h2")
      have "r = Ret (Some ?q, None) \<and> h' = h3\<lparr>structs := (structs h3)[?q := (structs h3 ! ?q)\<lparr>s_GoFiles := keep\<rparr>]\<rparr>"
        using assms(1,3) Ret False f [folded files]
        by (simp add: buildPackageForNamedFileInMultiPackageDir_h_def Let_def)
      then have r: "r = Ret (Some ?q, None)"
        and h': "h' = h3\<lparr>structs := (structs h3)[?q := (structs h3 ! ?q)\<lparr>s_GoFiles := keep\<rparr>]\<rparr>"
        by simp_all
      have n: "length (arrays h) \<le> length (arrays ?h2)" by simp
      from filterToFilesInPackage_h_frame [OF fresh_slice_nil n f]
      have st: "structs h3 = structs ?h2" by simp
      have nil: "slice_elems ?h2 nil_slice = []"
        by (simp add: slice_elems_def nil_slice_def)
      have same: "slice_elems h' keep = slice_elems h3 keep"
        by (rule slice_elems_same_arrays) (simp add: h')
      have "slice_elems h3 keep = slice_elems ?h2 nil_slice
              @ filter (\<lambda>f. lookup mp f = ?nonX) (map (slice_nth h ?files) [0 ..< sl_len ?files])"
        by (rule filterToFilesInPackage_h_elems [OF assms(2) refl _ _ fresh_slice_nil _ f])
          (simp_all add: wf_slice_def nil_slice_def)
      then have elems: "slice_elems h' keep = filter (\<lambda>f. lookup mp f = ?nonX) (slice_elems h ?files)"
        unfolding nil same slice_elems_map [of h ?files] by simp
      have sq: "structs h' ! ?q = ?copy\<lparr>s_Name := ?name, s_GoFiles := keep\<rparr>"
        by (simp add: h' st)
      have heap_side: "read_Package h' (structs h' ! ?q)
              = (read_Package h ?copy)\<lparr>Name := ?name,
                   GoFiles := filter (\<lambda>f. lookup mp f = ?nonX) (slice_elems h ?files)\<rparr>"
        unfolding read_Package_def sq by (simp add: elems split del: if_split)
      have value_side: "buildPackageForNamedFileInMultiPackageDir (Some (read_Package h ?copy)) m filename
              = Ret (Some ((read_Package h ?copy)\<lparr>Name := ?name,
                   GoFiles := filter (\<lambda>f. lookup mp f = ?nonX) (slice_elems h ?files)\<rparr>), None)"
        using False
        by (simp add: buildPackageForNamedFileInMultiPackageDir_def Ret Let_def
            filterToFilesInPackage_filter read_Package_def split del: if_split)
      show ?thesis
        by (simp add: value_side r heap_side split del: if_split)
    qed
  qed
qed

lemma example_run:
  "buildPackageForNamedFileInMultiPackageDir_h (\<lambda>c. 2 * c) (Some 0) example_error ''a_test.go''
       example_heap
     = (Ret (Some 1, None),
        \<lparr>structs =
           [\<lparr>s_Name = ''pkg'', s_PkgPath = ''example.com/pkg'',
              s_GoFiles = \<lparr>sl_array = Some 0, sl_off = 0, sl_len = 2, sl_cap = 2\<rparr>, s_Fset = []\<rparr>,
            \<lparr>s_Name = ''pkg_test'', s_PkgPath = ''example.com/pkg'',
              s_GoFiles = \<lparr>sl_array = Some 1, sl_off = 0, sl_len = 1, sl_cap = 1\<rparr>, s_Fset = []\<rparr>],
         arrays = [[''a.go'', ''a_test.go''], [''a.go'']]\<rparr>)"
  by (simp add: buildPackageForNamedFileInMultiPackageDir_h_def example_heap_def example_error_def
      fileToPkgName_def lookup_def HasSuffix_def TrimSuffix_def filterToFilesInPackage_h.simps
      slice_nth_def append_h_def nil_slice_def slice_elems_def Let_def)

lemma buildPackage_h_frame:
  assumes "buildPackageForNamedFileInMultiPackageDir_h grow bpkg m filename h = (r, h')"
  shows "take (length (structs h)) (structs h') = structs h
       \<and> take (length (arrays h)) (arrays h') = arrays h
       \<and> (\<forall>q. r = Ret (Some q, None) \<longrightarrow>
            q = length (structs h) \<and> q < length (structs h')
            \<and> fresh_slice (length (arrays h)) h' (s_GoFiles (structs h' ! q)))"
proof (cases "case bpkg of None \<Rightarrow> None
            | Some p \<Rightarrow> if p < length (structs h) then Some (structs h ! p) else None")
  case None
  with assms have "h' = h" "r = Panic"
    by (simp_all add: buildPackageForNamedFileInMultiPackageDir_h_def)
  then show ?thesis by simp
next
  case (Some copy)
  let ?q = "length (structs h)"
  let ?h1 = "h\<lparr>structs := structs h @ [copy]\<rparr>"
  show ?thesis
  proof (cases "fileToPkgName m")
    case Panic
    with Some assms have "h' = ?h1" "r = Panic"
      by (simp_all add: buildPackageForNamedFileInMultiPackageDir_h_def Let_def)
    then show ?thesis by simp
  next
    case (Ret mp)
    show ?thesis
    proof (cases "lookup mp filename = []")
      case True
      with Some Ret assms have "h' = ?h1" "r = Ret (None, Some (ErrNoFile (s_PkgPath copy) filename))"
        by (simp_all add: buildPackageForNamedFileInMultiPackageDir_h_def Let_def)
      then show ?thesis by simp
    next
      case False
      let ?h2 = "?h1\<lparr>structs := (structs ?h1)[?q := (structs ?h1 ! ?q)\<lparr>s_Name := lookup mp filename\<rparr>]\<rparr>"
      let ?nonX = "if HasSuffix (lookup mp filename) ''_test''
                   then TrimSuffix (lookup mp filename) ''_test'' else lookup mp filename"
      obtain keep h3 where
        f: "filterToFilesInPackage_h grow mp (s_GoFiles (structs ?h2 ! ?q)) ?nonX 0 nil_slice ?h2
              = (keep, h3)"
        by (cases "filterToFilesInPackage_h grow mp (s_GoFiles (structs ?h2 ! ?q)) ?nonX 0 nil_slice ?h2")
      have "r = Ret (Some ?q, None) \<and> h' = h3\<lparr>structs := (structs h3)[?q := (structs h3 ! ?q)\<lparr>s_GoFiles := keep\<rparr>]\<rparr>"
        using assms Some Ret False f
        by (simp add: buildPackageForNamedFileInMultiPackageDir_h_def Let_def)
      then have r: "r = Ret (Some ?q, None)"
        and h': "h' = h3\<lparr>structs := (structs h3)[?q := (structs h3 ! ?q)\<lparr>s_GoFiles := keep\<rparr>]\<rparr>"
        by simp_all
      have n: "length (arrays h) \<le> length (arrays ?h2)" by simp
      from filterToFilesInPackage_h_frame [OF fresh_slice_nil n f]
      have fr: "take (length (arrays h)) (arrays h3) = arrays h"
        "structs h3 = structs ?h2" "fresh_slice (length (arrays h)) h3 keep"
        by simp_all
      have arr: "take (length (arrays h)) (arrays h') = arrays h"
        using fr(1) by (simp add: h')
      have str: "take (length (structs h)) (structs h') = structs h"
        by (simp add: h' fr(2))
      have q: "?q < length (structs h')" "s_GoFiles (structs h' ! ?q) = keep"
        by (simp_all add: h' fr(2))
      have "fresh_slice (length (arrays h)) h' keep"
        using fr(3) by (simp add: fresh_slice_def h' split: option.splits)
      with arr str q r show ?thesis by simp
    qed
  qed
qed

section \<open>The properties of the specification\<close>

text \<open>
  C1, as amended. In a directory whose files declare a unit \<open>base\<close> and its
  external-test unit \<open>base_test\<close>, disambiguating on a file declared under
  \<open>base_test\<close> returns the copy of the package named \<open>base_test\<close> whose \<open>GoFiles\<close>
  are the input's \<open>GoFiles\<close> that the mapping declares under the non-suffixed name
  \<open>base\<close>, in their order: the files of \<open>base\<close> are kept and those declared under
  \<open>base_test\<close> are dropped. (The lists of the error are parallel, so that building
  the mapping does not panic.)
\<close>

theorem xtest_file_keeps_base_named_GoFiles:
  assumes "length (Files m) \<le> length (Packages m)"
    and "declared m filename = Some (base @ ''_test'')"
  shows "buildPackageForNamedFileInMultiPackageDir (Some bpkg) m filename =
           Ret (Some (bpkg\<lparr>Name := base @ ''_test'',
                            GoFiles := filter (\<lambda>f. lookup (declared m) f = base) (GoFiles bpkg)\<rparr>),
                None)"
proof -
  have l: "lookup (declared m) filename = base @ ''_test''"
    using assms(2) by (simp add: lookup_def)
  show ?thesis
    by (simp add: buildPackage_closed_form [OF assms(1)] l TrimSuffix_append)
qed

theorem xtest_file_keeps_base_named_GoFiles_witness:
  "length (Files \<lparr>Dir_m = ''/src/pkg'', Packages = [''pkg'', ''pkg_test''], Files = [''a.go'', ''a_test.go'']\<rparr>)
     \<le> length (Packages \<lparr>Dir_m = ''/src/pkg'', Packages = [''pkg'', ''pkg_test''], Files = [''a.go'', ''a_test.go'']\<rparr>)
   \<and> declared \<lparr>Dir_m = ''/src/pkg'', Packages = [''pkg'', ''pkg_test''], Files = [''a.go'', ''a_test.go'']\<rparr>
        ''a_test.go'' = Some (''pkg'' @ ''_test'')
   \<and> buildPackageForNamedFileInMultiPackageDir
        (Some \<lparr>Name = ''pkg'', PkgPath = ''example.com/pkg'', GoFiles = [''a.go'', ''a_test.go''], Fset = []\<rparr>)
        \<lparr>Dir_m = ''/src/pkg'', Packages = [''pkg'', ''pkg_test''], Files = [''a.go'', ''a_test.go'']\<rparr>
        ''a_test.go''
      = Ret (Some \<lparr>Name = ''pkg_test'', PkgPath = ''example.com/pkg'', GoFiles = [''a.go''], Fset = []\<rparr>, None)"
proof -
  let ?m = "\<lparr>Dir_m = ''/src/pkg'', Packages = [''pkg'', ''pkg_test''], Files = [''a.go'', ''a_test.go'']\<rparr>"
  have h1: "length (Files ?m) \<le> length (Packages ?m)" by simp
  have h2: "declared ?m ''a_test.go'' = Some (''pkg'' @ ''_test'')"
    by (simp add: declared_def)
  have d: "lookup (declared ?m) ''a.go'' = ''pkg''" "lookup (declared ?m) ''a_test.go'' \<noteq> ''pkg''"
    by (simp_all add: declared_def lookup_def)
  show ?thesis
    using h1 h2 d xtest_file_keeps_base_named_GoFiles [OF h1 h2,
      of "\<lparr>Name = ''pkg'', PkgPath = ''example.com/pkg'', GoFiles = [''a.go'', ''a_test.go''], Fset = []\<rparr>"]
    by simp
qed

text \<open>
  The claim as written fails: \<open>a.go\<close> is declared under \<open>pkg\<close> only and
  \<open>a_test.go\<close> under \<open>pkg_test\<close>; the unit returned for \<open>a_test.go\<close> lists
  \<open>a.go\<close> and not \<open>a_test.go\<close>.
\<close>

theorem xtest_file_unit_counterexample:
  "buildPackageForNamedFileInMultiPackageDir
     (Some \<lparr>Name = ''pkg'', PkgPath = ''example.com/pkg'', GoFiles = [''a.go'', ''a_test.go''], Fset = []\<rparr>)
     \<lparr>Dir_m = ''/src/pkg'', Packages = [''pkg'', ''pkg_test''], Files = [''a.go'', ''a_test.go'']\<rparr>
     ''a_test.go''
   = Ret (Some \<lparr>Name = ''pkg_test'', PkgPath = ''example.com/pkg'', GoFiles = [''a.go''], Fset = []\<rparr>, None)
   \<and> declared \<lparr>Dir_m = ''/src/pkg'', Packages = [''pkg'', ''pkg_test''], Files = [''a.go'', ''a_test.go'']\<rparr> ''a.go''
       = Some ''pkg''
   \<and> declared \<lparr>Dir_m = ''/src/pkg'', Packages = [''pkg'', ''pkg_test''], Files = [''a.go'', ''a_test.go'']\<rparr> ''a_test.go''
       = Some ''pkg_test''"
  by (simp add: buildPackageForNamedFileInMultiPackageDir_def fileToPkgName_def lookup_def
      filterToFilesInPackage_def HasSuffix_def TrimSuffix_def declared_def)

text \<open>
  C3. The file list \<open>typecheck\<close> builds for a unit and gives to the loader is the
  unit's \<open>GoFiles\<close> followed by its \<open>TestGoFiles\<close>, followed by its
  \<open>XTestGoFiles\<close> if and only if the unit's name ends in \<open>_test\<close>, each name
  joined to the unit's directory.
\<close>

theorem typecheck_file_list:
  "typecheck_goFiles JoinPath bpkg =
     map (JoinPath (Dir bpkg))
       (GoFiles_b bpkg @ TestGoFiles bpkg
          @ (if suffix ''_test'' (Name_b bpkg) then XTestGoFiles bpkg else []))"
  by (simp add: typecheck_goFiles_def JoinPath_loop_map HasSuffix_iff_suffix Let_def)

theorem typecheck_file_list_witness:
  "typecheck_goFiles example_JoinPath example_bpkg = [''/src/pkg/a.go'', ''/src/pkg/a_test.go'']
   \<and> typecheck_goFiles example_JoinPath (example_bpkg\<lparr>Name_b := ''pkg_test''\<rparr>)
       = [''/src/pkg/a.go'', ''/src/pkg/a_test.go'', ''/src/pkg/x_test.go'']"
proof -
  have s1: "\<not> suffix ''_test'' ''pkg''"
    by (simp add: HasSuffix_iff_suffix [symmetric] HasSuffix_def)
  have s2: "suffix ''_test'' ''pkg_test''"
    by (simp add: HasSuffix_iff_suffix [symmetric] HasSuffix_def)
  show ?thesis
    using typecheck_file_list [of example_JoinPath example_bpkg]
      typecheck_file_list [of example_JoinPath "example_bpkg\<lparr>Name_b := ''pkg_test''\<rparr>"] s1 s2
    by (simp add: example_bpkg_def example_JoinPath_def)
qed

text \<open>
  C4, as amended. \<open>typecheck\<close> fails terminally (an error, no program and no
  diagnostics) only when the load returns an error and no program, or when the
  conversion of the collected errors to diagnostics returns an error; whenever the
  load produces a program and the conversion succeeds, the analysis returns that
  program and the diagnostics with no terminal error, also when the load reported an
  error besides the program.
\<close>

theorem typecheck_terminal_failure:
  assumes "Load (ImportPath bpkg) (Dir bpkg) (typecheck_goFiles JoinPath bpkg) w
             = ((lprog, lerr, typeErrs, fs), w')"
    and "errsToDiagnostics typeErrs lprog = (diags, cerr)"
    and "fst (typecheck JoinPath Load errsToDiagnostics bpkg w) = (rprog, rdiags, rerr)"
  shows "(rerr \<noteq> None \<longrightarrow>
            rprog = None \<and> rdiags = []
            \<and> (lprog = None \<and> lerr = rerr \<or> (lprog \<noteq> None \<or> lerr = None) \<and> cerr = rerr))
       \<and> (lprog \<noteq> None \<and> cerr = None \<longrightarrow> rprog = lprog \<and> rdiags = diags \<and> rerr = None)"
  using assms by (auto simp: typecheck_def Let_def split: if_splits)

theorem typecheck_terminal_failure_witness:
  "example_Load (ImportPath example_bpkg) (Dir example_bpkg)
       (typecheck_goFiles example_JoinPath example_bpkg) 0
     = ((Some [''/src/pkg/a.go'', ''/src/pkg/a_test.go''], None, [ErrOther ''undeclared name: x''], []), 1)
   \<and> example_errsToDiagnostics [ErrOther ''undeclared name: x''] (Some [''/src/pkg/a.go'', ''/src/pkg/a_test.go''])
       = ([(''a.go'', [''undeclared name: x''])], None)
   \<and> fst (typecheck example_JoinPath example_Load example_errsToDiagnostics example_bpkg 0)
       = (Some [''/src/pkg/a.go'', ''/src/pkg/a_test.go''], [(''a.go'', [''undeclared name: x''])], None)"
proof -
  let ?prog = "Some [''/src/pkg/a.go'', ''/src/pkg/a_test.go'']"
  have files: "typecheck_goFiles example_JoinPath example_bpkg = [''/src/pkg/a.go'', ''/src/pkg/a_test.go'']"
    by (simp add: typecheck_goFiles_def example_bpkg_def example_JoinPath_def HasSuffix_def
        JoinPath_loop.simps)
  have h1: "example_Load (ImportPath example_bpkg) (Dir example_bpkg)
       (typecheck_goFiles example_JoinPath example_bpkg) 0
     = ((?prog, None, [ErrOther ''undeclared name: x''], []), 1)"
    unfolding files by (simp add: example_Load_def)
  have h2: "example_errsToDiagnostics [ErrOther ''undeclared name: x''] ?prog
       = ([(''a.go'', [''undeclared name: x''])], None)"
    by (simp add: example_errsToDiagnostics_def)
  obtain rprog rdiags rerr where
    h3: "fst (typecheck example_JoinPath example_Load example_errsToDiagnostics example_bpkg 0)
          = (rprog, rdiags, rerr)"
    by (metis prod_cases3)
  from typecheck_terminal_failure [OF h1 h2 h3]
  have "rprog = ?prog \<and> rdiags = [(''a.go'', [''undeclared name: x''])] \<and> rerr = None"
    by simp
  with h3 have c: "fst (typecheck example_JoinPath example_Load example_errsToDiagnostics example_bpkg 0)
       = (?prog, [(''a.go'', [''undeclared name: x''])], None)"
    by simp
  show ?thesis using h1 h2 c by (intro conjI)
qed

text \<open>
  The claim as written fails where the conversion fails: the load has produced a
  program and \<open>typecheck\<close> returns the conversion's error and no program (lines
  194-197).
\<close>

theorem typecheck_conversion_failure_counterexample:
  "fst (fst (example_Load (ImportPath example_bpkg) (Dir example_bpkg)
       (typecheck_goFiles example_JoinPath example_bpkg) 0))
     = Some [''/src/pkg/a.go'', ''/src/pkg/a_test.go'']
   \<and> fst (typecheck example_JoinPath example_Load failing_errsToDiagnostics example_bpkg 0)
       = (None, [], Some (ErrOther ''unexpected type error''))"
  by (simp add: typecheck_def typecheck_goFiles_def example_bpkg_def example_JoinPath_def
      HasSuffix_def JoinPath_loop.simps example_Load_def failing_errsToDiagnostics_def)

text \<open>
  C5, as amended. For a request that passes the earlier checks of \<open>loadPackage\<close>
  (the context carries a span, the URI is a workspace URI, the package is loaded and,
  in a directory with several packages, disambiguated without error, the contents
  are read): whenever \<open>offsetForPosition\<close> reports the position invalid,
  \<open>loadPackage\<close> fails with the invalid-position error, which carries the file, the
  position and the reason reported, and returns no package and \<open>NoPos\<close>; and with the
  \<open>offsetForPosition\<close> modelled from the spec, a position outside the contents (the
  line is not in the line table, or the column is beyond the line's byte length) is
  such a position, with a non-empty reason.
\<close>

theorem invalid_position_error:
  assumes "SpanFromContext ctx = Some parentSpan"
    and "IsURI h fileURI"
    and "loadPackage_pkg h (FilePath h fileURI) = Ret (pkg, None)"
    and "readFile h fileURI = (contents, None)"
  shows "(\<forall>offset why. ofp contents position = (offset, False, why) \<longrightarrow>
            fst (loadPackage h ofp ctx fileURI position tr)
              = Ret (None, NoPos,
                  Some (ErrInvalidPosition (FilePath h fileURI) (Line position) (Character position) why)))
       \<and> (Line position < 0 \<or> int (length (lineTable contents)) \<le> Line position
            \<or> Character position < 0
            \<or> int (length (lineTable contents ! nat (Line position))) < Character position \<longrightarrow>
            (\<exists>why. why \<noteq> [] \<and>
               fst (loadPackage h offsetForPosition ctx fileURI position tr)
                 = Ret (None, NoPos,
                     Some (ErrInvalidPosition (FilePath h fileURI) (Line position) (Character position) why))))"
proof -
  have invalid: "fst (loadPackage h f ctx fileURI position tr)
      = Ret (None, NoPos,
          Some (ErrInvalidPosition (FilePath h fileURI) (Line position) (Character position) why))"
    if "f contents position = (offset, False, why)" for f offset why
  proof -
    have "loadPackage_position h f fileURI (FilePath h fileURI) position pkg
          = Ret (None, NoPos,
              Some (ErrInvalidPosition (FilePath h fileURI) (Line position) (Character position) why))"
      by (simp add: loadPackage_position_def assms(4) that)
    then show ?thesis
      using loadPackage_reaches_position [OF assms(1-3)] by simp
  qed
  show ?thesis
  proof (intro conjI allI impI)
    fix offset why
    assume "ofp contents position = (offset, False, why)"
    from invalid [of ofp, OF this] show "fst (loadPackage h ofp ctx fileURI position tr)
              = Ret (None, NoPos,
                  Some (ErrInvalidPosition (FilePath h fileURI) (Line position) (Character position) why))" .
  next
    assume "Line position < 0 \<or> int (length (lineTable contents)) \<le> Line position
            \<or> Character position < 0
            \<or> int (length (lineTable contents ! nat (Line position))) < Character position"
    then obtain why where why: "why \<noteq> []" "offsetForPosition contents position = (0, False, why)"
      using offsetForPosition_invalid by blast
    from invalid [of offsetForPosition, OF why(2)] why(1)
    show "\<exists>why. why \<noteq> [] \<and>
               fst (loadPackage h offsetForPosition ctx fileURI position tr)
                 = Ret (None, NoPos,
                     Some (ErrInvalidPosition (FilePath h fileURI) (Line position) (Character position) why))"
      by blast
  qed
qed

theorem invalid_position_error_witness:
  "SpanFromContext \<lparr>ctx_span = Some 0\<rparr> = Some 0
   \<and> IsURI example_handler ''file:///src/pkg/a.go''
   \<and> loadPackage_pkg example_handler (FilePath example_handler ''file:///src/pkg/a.go'')
        = Ret (Some example_pkg, None)
   \<and> readFile example_handler ''file:///src/pkg/a.go''
        = ([CHR ''a'', CHR ''b'', CHR 0x0A, CHR ''c'', CHR ''d''], None)
   \<and> offsetForPosition [CHR ''a'', CHR ''b'', CHR 0x0A, CHR ''c'', CHR ''d''] \<lparr>Line = 1, Character = 5\<rparr>
        = (0, False, ''column beyond line end'')
   \<and> int (length (lineTable [CHR ''a'', CHR ''b'', CHR 0x0A, CHR ''c'', CHR ''d''] ! nat 1)) < 5
   \<and> fst (loadPackage example_handler offsetForPosition \<lparr>ctx_span = Some 0\<rparr>
             ''file:///src/pkg/a.go'' \<lparr>Line = 1, Character = 5\<rparr> [])
        = Ret (None, NoPos, Some (ErrInvalidPosition ''/src/pkg/a.go'' 1 5 ''column beyond line end''))"
proof -
  let ?ctx = "\<lparr>ctx_span = Some (0::nat)\<rparr>"
  let ?uri = "''file:///src/pkg/a.go''"
  let ?contents = "[CHR ''a'', CHR ''b'', CHR 0x0A, CHR ''c'', CHR ''d'']"
  let ?p = "\<lparr>Line = 1, Character = 5\<rparr>"
  have h1: "SpanFromContext ?ctx = Some 0" by (simp add: SpanFromContext_def)
  have h2: "IsURI example_handler ?uri" by (simp add: example_handler_def)
  have fp: "FilePath example_handler ?uri = ''/src/pkg/a.go''" by (simp add: example_handler_def)
  have h3: "loadPackage_pkg example_handler (FilePath example_handler ?uri) = Ret (Some example_pkg, None)"
    by (rule example_pkg_step)
  have h4: "readFile example_handler ?uri = (?contents, None)" by (simp add: example_handler_def)
  have h5: "offsetForPosition ?contents ?p = (0, False, ''column beyond line end'')"
    by (simp add: offsetForPosition_def)
  have h6: "int (length (lineTable ?contents ! nat 1)) < 5" by simp
  note t = invalid_position_error [where ofp = offsetForPosition and position = ?p and tr = "[]",
      OF h1 h2 h3 h4]
  have c: "fst (loadPackage example_handler offsetForPosition ?ctx ?uri ?p [])
        = Ret (None, NoPos, Some (ErrInvalidPosition ''/src/pkg/a.go'' 1 5 ''column beyond line end''))"
    using t h5 unfolding fp by simp
  show ?thesis
    using h1 h2 h3 h4 h5 h6 c by (intro conjI)
qed

text \<open>
  The claim as written fails where an earlier check fails: for a URI that is not a
  workspace URI the position is outside the contents and the error is the
  out-of-workspace error of line 246.
\<close>

theorem invalid_position_out_of_workspace_counterexample:
  "offsetForPosition (fst (readFile example_handler ''untitled:1'')) \<lparr>Line = 7, Character = 0\<rparr>
     = (0, False, ''line out of range'')
   \<and> loadPackage example_handler offsetForPosition \<lparr>ctx_span = Some 0\<rparr>
        ''untitled:1'' \<lparr>Line = 7, Character = 0\<rparr> []
     = (Ret (None, NoPos, Some (ErrOutOfWorkspace ''untitled:1'')),
        [Started 0 ''langserver-go: load program'' [(''fileURI'', ''untitled:1'')] 0, Finished 0])"
  by (simp add: loadPackage_def loadPackage_body_def SpanFromContext_def StartSpan_def Finish_def
      example_handler_def offsetForPosition_def)

text \<open>
  C6. Once \<open>loadPackage\<close> has computed a byte offset (the earlier steps passed and
  \<open>offsetForPosition\<close> reported a valid position): if no file of the package's file
  set is path-equal to the requested filename, \<open>posForFileOffset\<close> returns \<open>NoPos\<close>
  and \<open>loadPackage\<close> fails with the invalid-location error naming the file and the
  offset; if some file is, the position returned is \<open>Pos(offset)\<close> of the first such
  file in the order of the file set.
\<close>

theorem unregistered_file_invalid_location:
  assumes "SpanFromContext ctx = Some parentSpan"
    and "IsURI h fileURI"
    and "loadPackage_pkg h (FilePath h fileURI) = Ret (Some pkg, None)"
    and "readFile h fileURI = (contents, None)"
    and "ofp contents position = (offset, True, why)"
  shows "((\<forall>ff \<in> set (Fset pkg). \<not> PathEqual h (File_Name ff) (FilePath h fileURI)) \<longrightarrow>
            posForFileOffset (PathEqual h) (Fset pkg) (FilePath h fileURI) offset = Ret NoPos
          \<and> fst (loadPackage h ofp ctx fileURI position tr)
              = Ret (None, NoPos, Some (ErrInvalidLocation (FilePath h fileURI) offset)))
       \<and> ((\<exists>ff \<in> set (Fset pkg). PathEqual h (File_Name ff) (FilePath h fileURI)) \<longrightarrow>
            (\<exists>before f after. Fset pkg = before @ f # after
               \<and> PathEqual h (File_Name f) (FilePath h fileURI)
               \<and> (\<forall>g \<in> set before. \<not> PathEqual h (File_Name g) (FilePath h fileURI))
               \<and> posForFileOffset (PathEqual h) (Fset pkg) (FilePath h fileURI) offset
                   = File_Pos f offset))"
proof (intro conjI impI)
  assume none: "\<forall>ff \<in> set (Fset pkg). \<not> PathEqual h (File_Name ff) (FilePath h fileURI)"
  then have find: "Iterate_find (PathEqual h) (Fset pkg) (FilePath h fileURI) = None"
    by (simp add: Iterate_find_None)
  then show pos: "posForFileOffset (PathEqual h) (Fset pkg) (FilePath h fileURI) offset = Ret NoPos"
    by (simp add: posForFileOffset_def)
  have "loadPackage_position h ofp fileURI (FilePath h fileURI) position (Some pkg)
          = Ret (None, NoPos, Some (ErrInvalidLocation (FilePath h fileURI) offset))"
    by (simp add: loadPackage_position_def assms(4,5) pos)
  then show "fst (loadPackage h ofp ctx fileURI position tr)
              = Ret (None, NoPos, Some (ErrInvalidLocation (FilePath h fileURI) offset))"
    using loadPackage_reaches_position [OF assms(1-3)] by simp
next
  assume "\<exists>ff \<in> set (Fset pkg). PathEqual h (File_Name ff) (FilePath h fileURI)"
  then have "Iterate_find (PathEqual h) (Fset pkg) (FilePath h fileURI) \<noteq> None"
    by (simp add: Iterate_find_None)
  then obtain f where f: "Iterate_find (PathEqual h) (Fset pkg) (FilePath h fileURI) = Some f"
    by blast
  then have "posForFileOffset (PathEqual h) (Fset pkg) (FilePath h fileURI) offset = File_Pos f offset"
    by (simp add: posForFileOffset_def)
  moreover obtain before after where "Fset pkg = before @ f # after"
    "PathEqual h (File_Name f) (FilePath h fileURI)"
    "\<forall>g \<in> set before. \<not> PathEqual h (File_Name g) (FilePath h fileURI)"
    using f unfolding Iterate_find_Some by blast
  ultimately show "\<exists>before f after. Fset pkg = before @ f # after
               \<and> PathEqual h (File_Name f) (FilePath h fileURI)
               \<and> (\<forall>g \<in> set before. \<not> PathEqual h (File_Name g) (FilePath h fileURI))
               \<and> posForFileOffset (PathEqual h) (Fset pkg) (FilePath h fileURI) offset
                   = File_Pos f offset"
    by blast
qed

theorem unregistered_file_invalid_location_witness:
  "SpanFromContext \<lparr>ctx_span = Some 0\<rparr> = Some 0
   \<and> IsURI example_handler ''file:///src/pkg/b.go''
   \<and> loadPackage_pkg example_handler (FilePath example_handler ''file:///src/pkg/b.go'')
        = Ret (Some example_pkg, None)
   \<and> readFile example_handler ''file:///src/pkg/b.go''
        = ([CHR ''a'', CHR ''b'', CHR 0x0A, CHR ''c'', CHR ''d''], None)
   \<and> offsetForPosition [CHR ''a'', CHR ''b'', CHR 0x0A, CHR ''c'', CHR ''d''] \<lparr>Line = 1, Character = 1\<rparr>
        = (4, True, [])
   \<and> posForFileOffset (PathEqual example_handler) (Fset example_pkg) ''/src/pkg/b.go'' 4 = Ret NoPos
   \<and> fst (loadPackage example_handler offsetForPosition \<lparr>ctx_span = Some 0\<rparr>
             ''file:///src/pkg/b.go'' \<lparr>Line = 1, Character = 1\<rparr> [])
        = Ret (None, NoPos, Some (ErrInvalidLocation ''/src/pkg/b.go'' 4))
   \<and> posForFileOffset (PathEqual example_handler) (Fset example_pkg) ''/src/pkg/a.go'' 4
        = File_Pos \<lparr>File_Name = ''/src/pkg/a.go'', File_base = 1, File_size = 5\<rparr> 4"
proof -
  let ?ctx = "\<lparr>ctx_span = Some (0::nat)\<rparr>"
  let ?contents = "[CHR ''a'', CHR ''b'', CHR 0x0A, CHR ''c'', CHR ''d'']"
  let ?p = "\<lparr>Line = 1, Character = 1\<rparr>"
  have h1: "SpanFromContext ?ctx = Some 0" by (simp add: SpanFromContext_def)
  have fb: "FilePath example_handler ''file:///src/pkg/b.go'' = ''/src/pkg/b.go''"
    and fa: "FilePath example_handler ''file:///src/pkg/a.go'' = ''/src/pkg/a.go''"
    by (simp_all add: example_handler_def)
  have pe: "PathEqual example_handler = (\<lambda>a b. a = b)" by (simp add: example_handler_def)
  have h2b: "IsURI example_handler ''file:///src/pkg/b.go''"
    and h2a: "IsURI example_handler ''file:///src/pkg/a.go''"
    by (simp_all add: example_handler_def)
  have step: "\<And>f. loadPackage_pkg example_handler f = Ret (Some example_pkg, None)"
    by (simp add: loadPackage_pkg_def load_def example_handler_def)
  have h3b: "loadPackage_pkg example_handler (FilePath example_handler ''file:///src/pkg/b.go'')
      = Ret (Some example_pkg, None)"
    and h3a: "loadPackage_pkg example_handler (FilePath example_handler ''file:///src/pkg/a.go'')
      = Ret (Some example_pkg, None)"
    by (rule step)+
  have h4: "\<And>u. readFile example_handler u = (?contents, None)" by (simp add: example_handler_def)
  have h5: "offsetForPosition ?contents ?p = (4, True, [])"
    by (simp add: offsetForPosition_def lineStart_def)
  have absent: "\<forall>ff \<in> set (Fset example_pkg).
      \<not> PathEqual example_handler (File_Name ff) (FilePath example_handler ''file:///src/pkg/b.go'')"
    unfolding fb pe by (simp add: example_pkg_def)
  have present: "\<exists>ff \<in> set (Fset example_pkg).
      PathEqual example_handler (File_Name ff) (FilePath example_handler ''file:///src/pkg/a.go'')"
    unfolding fa pe by (simp add: example_pkg_def)
  note tb = unregistered_file_invalid_location
    [where ofp = offsetForPosition and tr = "[]", OF h1 h2b h3b h4 h5]
  note ta = unregistered_file_invalid_location
    [where ofp = offsetForPosition and tr = "[]", OF h1 h2a h3a h4 h5]
  have c1: "posForFileOffset (PathEqual example_handler) (Fset example_pkg) ''/src/pkg/b.go'' 4 = Ret NoPos"
    and c2: "fst (loadPackage example_handler offsetForPosition ?ctx ''file:///src/pkg/b.go'' ?p [])
        = Ret (None, NoPos, Some (ErrInvalidLocation ''/src/pkg/b.go'' 4))"
    using tb absent unfolding fb by blast+
  obtain before f after where f: "Fset example_pkg = before @ f # after"
    "posForFileOffset (PathEqual example_handler) (Fset example_pkg) ''/src/pkg/a.go'' 4 = File_Pos f 4"
    using ta present unfolding fa by blast
  have "before = []" "f = \<lparr>File_Name = ''/src/pkg/a.go'', File_base = 1, File_size = 5\<rparr>"
    using f(1) by (cases before; simp add: example_pkg_def)+
  with f(2) have c3: "posForFileOffset (PathEqual example_handler) (Fset example_pkg) ''/src/pkg/a.go'' 4
        = File_Pos \<lparr>File_Name = ''/src/pkg/a.go'', File_base = 1, File_size = 5\<rparr> 4"
    by simp
  show ?thesis
    using h1 h2b h3b h4 h5 c1 c2 c3 by (intro conjI)
qed

text \<open>
  C7, as amended. With a package at hand and parallel lists in the error (building
  the mapping does not panic), the disambiguation fails, returning an error and no
  unit, if and only if the requested filename is absent from the mapping or is
  mapped to the empty unit name; when the filename is mapped to a non-empty unit
  name, a unit with that name is returned without error.
\<close>

theorem disambiguation_fails_iff_no_unit_name:
  assumes "length (Files m) \<le> length (Packages m)"
  shows "((\<exists>e. buildPackageForNamedFileInMultiPackageDir (Some bpkg) m filename = Ret (None, Some e))
            \<longleftrightarrow> (filename \<notin> set (Files m) \<or> declared m filename = Some []))
       \<and> (\<forall>p. declared m filename = Some p \<and> p \<noteq> [] \<longrightarrow>
            (\<exists>u. buildPackageForNamedFileInMultiPackageDir (Some bpkg) m filename = Ret (Some u, None)
                 \<and> Name u = p))"
proof -
  have none: "declared m filename = None \<longleftrightarrow> filename \<notin> set (Files m)"
    by (rule declared_None_iff [OF assms])
  have empty: "lookup (declared m) filename = [] \<longleftrightarrow>
      (filename \<notin> set (Files m) \<or> declared m filename = Some [])"
    unfolding none [symmetric] by (simp add: lookup_def split: option.splits)
  show ?thesis
    unfolding empty [symmetric]
    by (auto simp: buildPackage_closed_form [OF assms] lookup_def)
qed

theorem disambiguation_fails_iff_no_unit_name_witness:
  "length (Files \<lparr>Dir_m = ''/src/pkg'', Packages = [''main'', ''lib''], Files = [''main.go'', ''lib.go'']\<rparr>)
     \<le> length (Packages \<lparr>Dir_m = ''/src/pkg'', Packages = [''main'', ''lib''], Files = [''main.go'', ''lib.go'']\<rparr>)
   \<and> (\<exists>e. buildPackageForNamedFileInMultiPackageDir
        (Some \<lparr>Name = ''main'', PkgPath = ''example.com/pkg'', GoFiles = [''main.go'', ''lib.go''], Fset = []\<rparr>)
        \<lparr>Dir_m = ''/src/pkg'', Packages = [''main'', ''lib''], Files = [''main.go'', ''lib.go'']\<rparr>
        ''other.go'' = Ret (None, Some e))
   \<and> declared \<lparr>Dir_m = ''/src/pkg'', Packages = [''main'', ''lib''], Files = [''main.go'', ''lib.go'']\<rparr> ''lib.go''
        = Some ''lib''
   \<and> (\<exists>u. buildPackageForNamedFileInMultiPackageDir
        (Some \<lparr>Name = ''main'', PkgPath = ''example.com/pkg'', GoFiles = [''main.go'', ''lib.go''], Fset = []\<rparr>)
        \<lparr>Dir_m = ''/src/pkg'', Packages = [''main'', ''lib''], Files = [''main.go'', ''lib.go'']\<rparr>
        ''lib.go'' = Ret (Some u, None) \<and> Name u = ''lib'')"
proof -
  let ?m = "\<lparr>Dir_m = ''/src/pkg'', Packages = [''main'', ''lib''], Files = [''main.go'', ''lib.go'']\<rparr>"
  let ?b = "\<lparr>Name = ''main'', PkgPath = ''example.com/pkg'', GoFiles = [''main.go'', ''lib.go''], Fset = []\<rparr>"
  have h: "length (Files ?m) \<le> length (Packages ?m)" by simp
  have absent: "''other.go'' \<notin> set (Files ?m)" by simp
  have d: "declared ?m ''lib.go'' = Some ''lib''" by (simp add: declared_def)
  note t = disambiguation_fails_iff_no_unit_name [OF h, of ?b]
  have a: "\<exists>e. buildPackageForNamedFileInMultiPackageDir (Some ?b) ?m ''other.go'' = Ret (None, Some e)"
    using t [of "''other.go''"] absent by blast
  have b: "\<exists>u. buildPackageForNamedFileInMultiPackageDir (Some ?b) ?m ''lib.go'' = Ret (Some u, None)
       \<and> Name u = ''lib''"
    using t [of "''lib.go''"] d by simp
  show ?thesis using h a d b by blast
qed

text \<open>
  The claim as written fails where a listed file is mapped to the empty name: the
  file is in the mapping and the call still fails.
\<close>

theorem disambiguation_empty_unit_name_counterexample:
  "''a.go'' \<in> set (Files \<lparr>Dir_m = ''/src/pkg'', Packages = ['''', ''lib''], Files = [''a.go'', ''lib.go'']\<rparr>)
   \<and> buildPackageForNamedFileInMultiPackageDir
        (Some \<lparr>Name = ''lib'', PkgPath = ''example.com/pkg'', GoFiles = [''a.go'', ''lib.go''], Fset = []\<rparr>)
        \<lparr>Dir_m = ''/src/pkg'', Packages = ['''', ''lib''], Files = [''a.go'', ''lib.go'']\<rparr>
        ''a.go''
      = Ret (None, Some (ErrNoFile ''example.com/pkg'' ''a.go''))"
  by (simp add: buildPackageForNamedFileInMultiPackageDir_def fileToPkgName_def lookup_def)




text \<open>
  C9. The disambiguation does not write to what the caller holds: every struct and
  every backing array of the heap before the call is the same after it, so the
  caller's package (its \<open>Name\<close>, its \<open>GoFiles\<close> slice and the files in
  it) reads as before; the pointer returned is the address of a new struct, the
  copy, and the \<open>GoFiles\<close> of the copy are the nil slice or a slice of an array
  allocated by the call.
\<close>

theorem disambiguation_leaves_callers_package:
  assumes "buildPackageForNamedFileInMultiPackageDir_h grow bpkg m filename h = (r, h')"
  shows "take (length (structs h)) (structs h') = structs h
       \<and> take (length (arrays h)) (arrays h') = arrays h
       \<and> (\<forall>p. bpkg = Some p \<and> p < length (structs h) \<and> wf_slice h (s_GoFiles (structs h ! p)) \<longrightarrow>
            structs h' ! p = structs h ! p
            \<and> read_Package h' (structs h' ! p) = read_Package h (structs h ! p))
       \<and> (\<forall>q. r = Ret (Some q, None) \<longrightarrow>
            q = length (structs h) \<and> q < length (structs h')
            \<and> fresh_slice (length (arrays h)) h' (s_GoFiles (structs h' ! q)))"
proof -
  note fr = buildPackage_h_frame [OF assms]
  have str: "take (length (structs h)) (structs h') = structs h"
    and arr: "take (length (arrays h)) (arrays h') = arrays h"
    using fr by simp_all
  have "length (take (length (arrays h)) (arrays h')) = length (arrays h)"
    by (simp only: arr)
  then have len: "length (arrays h) \<le> length (arrays h')"
    by simp
  have same: "structs h' ! p = structs h ! p
      \<and> read_Package h' (structs h' ! p) = read_Package h (structs h ! p)"
    if p: "p < length (structs h)" and wf: "wf_slice h (s_GoFiles (structs h ! p))" for p
  proof -
    have s: "structs h' ! p = structs h ! p"
      using p str by (metis nth_take)
    have "slice_nth h' (s_GoFiles (structs h ! p)) i = slice_nth h (s_GoFiles (structs h ! p)) i" for i
      by (rule slice_nth_old [OF wf refl _ len]) (simp add: arr)
    then have "slice_elems h' (s_GoFiles (structs h ! p)) = slice_elems h (s_GoFiles (structs h ! p))"
      by (intro slice_elems_cong) simp_all
    then show ?thesis
      by (simp add: s read_Package_def)
  qed
  show ?thesis
    using fr same by blast
qed

theorem disambiguation_leaves_callers_package_witness:
  "buildPackageForNamedFileInMultiPackageDir_h (\<lambda>c. 2 * c) (Some 0) example_error ''a_test.go''
       example_heap
     = (Ret (Some 1, None),
        \<lparr>structs =
           [\<lparr>s_Name = ''pkg'', s_PkgPath = ''example.com/pkg'',
              s_GoFiles = \<lparr>sl_array = Some 0, sl_off = 0, sl_len = 2, sl_cap = 2\<rparr>, s_Fset = []\<rparr>,
            \<lparr>s_Name = ''pkg_test'', s_PkgPath = ''example.com/pkg'',
              s_GoFiles = \<lparr>sl_array = Some 1, sl_off = 0, sl_len = 1, sl_cap = 1\<rparr>, s_Fset = []\<rparr>],
         arrays = [[''a.go'', ''a_test.go''], [''a.go'']]\<rparr>)
   \<and> 0 < length (structs example_heap)
   \<and> wf_slice example_heap (s_GoFiles (structs example_heap ! 0))
   \<and> read_Package
        \<lparr>structs =
           [\<lparr>s_Name = ''pkg'', s_PkgPath = ''example.com/pkg'',
              s_GoFiles = \<lparr>sl_array = Some 0, sl_off = 0, sl_len = 2, sl_cap = 2\<rparr>, s_Fset = []\<rparr>,
            \<lparr>s_Name = ''pkg_test'', s_PkgPath = ''example.com/pkg'',
              s_GoFiles = \<lparr>sl_array = Some 1, sl_off = 0, sl_len = 1, sl_cap = 1\<rparr>, s_Fset = []\<rparr>],
         arrays = [[''a.go'', ''a_test.go''], [''a.go'']]\<rparr>
        \<lparr>s_Name = ''pkg'', s_PkgPath = ''example.com/pkg'',
          s_GoFiles = \<lparr>sl_array = Some 0, sl_off = 0, sl_len = 2, sl_cap = 2\<rparr>, s_Fset = []\<rparr>
      = read_Package example_heap (structs example_heap ! 0)
   \<and> fresh_slice (length (arrays example_heap))
        \<lparr>structs =
           [\<lparr>s_Name = ''pkg'', s_PkgPath = ''example.com/pkg'',
              s_GoFiles = \<lparr>sl_array = Some 0, sl_off = 0, sl_len = 2, sl_cap = 2\<rparr>, s_Fset = []\<rparr>,
            \<lparr>s_Name = ''pkg_test'', s_PkgPath = ''example.com/pkg'',
              s_GoFiles = \<lparr>sl_array = Some 1, sl_off = 0, sl_len = 1, sl_cap = 1\<rparr>, s_Fset = []\<rparr>],
         arrays = [[''a.go'', ''a_test.go''], [''a.go'']]\<rparr>
        \<lparr>sl_array = Some 1, sl_off = 0, sl_len = 1, sl_cap = 1\<rparr>"
proof -
  let ?h' = "\<lparr>structs =
           [\<lparr>s_Name = ''pkg'', s_PkgPath = ''example.com/pkg'',
              s_GoFiles = \<lparr>sl_array = Some 0, sl_off = 0, sl_len = 2, sl_cap = 2\<rparr>, s_Fset = []\<rparr>,
            \<lparr>s_Name = ''pkg_test'', s_PkgPath = ''example.com/pkg'',
              s_GoFiles = \<lparr>sl_array = Some 1, sl_off = 0, sl_len = 1, sl_cap = 1\<rparr>, s_Fset = []\<rparr>],
         arrays = [[''a.go'', ''a_test.go''], [''a.go'']]\<rparr>"
  have run: "buildPackageForNamedFileInMultiPackageDir_h (\<lambda>c. 2 * c) (Some 0) example_error
       ''a_test.go'' example_heap = (Ret (Some 1, None), ?h')"
    by (rule example_run)
  have p: "0 < length (structs example_heap)" by (simp add: example_heap_def)
  have wf: "wf_slice example_heap (s_GoFiles (structs example_heap ! 0))"
    by (simp add: example_heap_def wf_slice_def)
  note t = disambiguation_leaves_callers_package [OF run]
  have s0: "structs ?h' ! 0 = \<lparr>s_Name = ''pkg'', s_PkgPath = ''example.com/pkg'',
          s_GoFiles = \<lparr>sl_array = Some 0, sl_off = 0, sl_len = 2, sl_cap = 2\<rparr>, s_Fset = []\<rparr>"
    and s1: "s_GoFiles (structs ?h' ! 1) = \<lparr>sl_array = Some 1, sl_off = 0, sl_len = 1, sl_cap = 1\<rparr>"
    by simp_all
  have a: "read_Package ?h' (structs ?h' ! 0) = read_Package example_heap (structs example_heap ! 0)"
    using t p wf by blast
  have b: "fresh_slice (length (arrays example_heap)) ?h' (s_GoFiles (structs ?h' ! 1))"
    using t by blast
  show ?thesis
    using run p wf a [unfolded s0] b [unfolded s1] by (intro conjI)
qed

text \<open>
  C10. When the cache's \<open>Get\<close> returns nil for the key of the package,
  \<open>cachedTypecheck\<close> returns a nil file set, a nil program and a nil error (with
  whatever \<open>diags\<close> holds).
\<close>

theorem cachedTypecheck_nil_from_cache:
  assumes "SpanFromContext ctx = Some parentSpan"
    and "fst (Get c \<lparr>importPath = ImportPath bpkg, srcDir = Dir bpkg, name = Name_b bpkg\<rparr>
               (cachedTypecheck_fill JoinPath Load errsToDiagnostics bpkg) ([], w)) = None"
  shows "\<exists>diags. fst (cachedTypecheck Get JoinPath Load errsToDiagnostics ctx (Some bpkg) c w tr)
           = Ret (None, None, diags, None)"
  using assms
  by (auto simp: cachedTypecheck_def StartSpan_def split: prod.splits option.splits)

theorem cachedTypecheck_nil_from_cache_witness:
  "SpanFromContext \<lparr>ctx_span = Some 7\<rparr> = Some 7
   \<and> fst (cache_Get nil_cache
            \<lparr>importPath = ImportPath example_bpkg, srcDir = Dir example_bpkg, name = Name_b example_bpkg\<rparr>
            (cachedTypecheck_fill example_JoinPath example_Load example_errsToDiagnostics example_bpkg)
            ([], 0)) = None
   \<and> (\<exists>diags. fst (cachedTypecheck cache_Get example_JoinPath example_Load example_errsToDiagnostics
         \<lparr>ctx_span = Some 7\<rparr> (Some example_bpkg) nil_cache 0 []) = Ret (None, None, diags, None))"
proof -
  have h1: "SpanFromContext \<lparr>ctx_span = Some 7\<rparr> = Some 7" by (simp add: SpanFromContext_def)
  have h2: "fst (cache_Get nil_cache
            \<lparr>importPath = ImportPath example_bpkg, srcDir = Dir example_bpkg, name = Name_b example_bpkg\<rparr>
            (cachedTypecheck_fill example_JoinPath example_Load example_errsToDiagnostics example_bpkg)
            ([], 0)) = None"
    by (simp add: example_key_of_bpkg cache_Get_def nil_cache_def)
  from cachedTypecheck_nil_from_cache [where Get = cache_Get, OF h1 h2, of "[]"]
  have c: "\<exists>diags. fst (cachedTypecheck cache_Get example_JoinPath example_Load example_errsToDiagnostics
         \<lparr>ctx_span = Some 7\<rparr> (Some example_bpkg) nil_cache 0 []) = Ret (None, None, diags, None)" .
  show ?thesis using h1 h2 c by (intro conjI)
qed

end
